theory Spec2Isabelle
  imports Complex_Main "HOL-Library.Word" "HOL-Library.Sublist"
begin

section \<open>Python values\<close>

text \<open>
  \<^verbatim>\<open>jdprocess\<close> is dynamically typed: it inspects its arguments with \<^verbatim>\<open>callable\<close>,
  \<^verbatim>\<open>type(.) == int\<close>, \<^verbatim>\<open>== None\<close> and \<^verbatim>\<open>is None\<close>. The values it can be handed are a
  datatype. A callable is a pure function on the reals (the drift, the diffusion and the
  diffusion's derivative). Floats are idealised as reals: rounding, infinities and NaN
  are not represented. \<^verbatim>\<open>time\<close> and \<^verbatim>\<open>delta_t\<close> are taken as reals throughout, and
  assertions are taken as enabled.
\<close>

datatype pyval =
    PyNone
  | PyBool bool
  | PyInt int
  | PyFloat real
  | PyStr string
  | PyFunc "real \<Rightarrow> real"
  | NpFloat64 real
  | NpInt64 "64 word"

datatype pytype =
  T_NoneType | T_bool | T_int | T_float | T_str | T_function | T_float64 | T_int64

text \<open>Python's \<^verbatim>\<open>type(v)\<close>: the exact class, so a \<^verbatim>\<open>bool\<close> is not an \<^verbatim>\<open>int\<close> and a numpy
  scalar is not a \<^verbatim>\<open>float\<close>.\<close>

fun py_type :: "pyval \<Rightarrow> pytype" where
  "py_type PyNone = T_NoneType"
| "py_type (PyBool _) = T_bool"
| "py_type (PyInt _) = T_int"
| "py_type (PyFloat _) = T_float"
| "py_type (PyStr _) = T_str"
| "py_type (PyFunc _) = T_function"
| "py_type (NpFloat64 _) = T_float64"
| "py_type (NpInt64 _) = T_int64"

fun callable :: "pyval \<Rightarrow> bool" where
  "callable (PyFunc _) = True"
| "callable _ = False"

text \<open>The test \<^verbatim>\<open>type(v) == int or type(v) == float\<close> of lines 73, 75 and 88.\<close>

definition int_or_float :: "pyval \<Rightarrow> bool" where
  "int_or_float v = (py_type v = T_int \<or> py_type v = T_float)"

text \<open>The assertions of the routine, named after what they test, and the exceptions
  that can leave it.\<close>

datatype assertion =
    Time_positive      \<comment> \<open>line 65, "Total integration time must be positive"\<close>
  | Delta_t_positive   \<comment> \<open>line 66, "Time sampling must be positive"\<close>
  | B_prime_is_None    \<comment> \<open>line 68, "Introduce b'(x) to use the Milstein solver"\<close>
  | B_prime_callable   \<comment> \<open>line 69, "b'(x) must be a function"\<close>
  | A_callable         \<comment> \<open>line 71, "drift a(x) must be a function"\<close>
  | B_callable         \<comment> \<open>line 72, "diffusion b(x) must be a function"\<close>
  | Lamb_type          \<comment> \<open>line 73, "'lamb' is not an int or float"\<close>
  | Xi_type            \<comment> \<open>line 75, "'xi' is not an int or float"\<close>
  | Init_type          \<comment> \<open>line 88, "'init' is not an int or float"\<close>

datatype error = AssertionError assertion | IndexError | TypeError | ValueError

text \<open>Calling a value: only a function can be called.\<close>

fun call :: "pyval \<Rightarrow> real \<Rightarrow> error + real" where
  "call (PyFunc f) x = Inr (f x)"
| "call _ x = Inl TypeError"

text \<open>The number that arithmetic (\<^verbatim>\<open>float(v)\<close>, \<^verbatim>\<open>v * delta_t\<close>, \<^verbatim>\<open>np.sqrt(v)\<close>) sees in
  a value; \<^verbatim>\<open>None\<close>, strings and functions are not numbers.\<close>

fun value_of :: "pyval \<Rightarrow> error + real" where
  "value_of (PyInt n) = Inr (of_int n)"
| "value_of (PyFloat r) = Inr r"
| "value_of (PyBool b) = Inr (of_bool b)"
| "value_of (NpFloat64 r) = Inr r"
| "value_of (NpInt64 w) = Inr (of_int (sint w))"
| "value_of _ = Inl TypeError"

section \<open>The random-number source\<close>

text \<open>
  \<^verbatim>\<open>np.random\<close> is an ambient, seeded, deterministic generator: the variate it returns
  is a function of the requests it has served so far and of the current request. The
  state threaded through the model is that history of requests, one entry per variate;
  a call with \<^verbatim>\<open>size = n\<close> serves \<open>n\<close> variates in sequence.
  \<^verbatim>\<open>np.random.poisson\<close> raises \<^verbatim>\<open>ValueError\<close> for a negative rate.
  \<^verbatim>\<open>np.random.normal\<close> is always called with a scale \<^verbatim>\<open>np.sqrt(.)\<close>, which is never
  negative, so its own scale check cannot fire.
\<close>

datatype request = Normal real real | Poisson real

record generator =
  normal_variate :: "request list \<Rightarrow> real \<Rightarrow> real \<Rightarrow> real"
  poisson_variate :: "request list \<Rightarrow> real \<Rightarrow> nat"

text \<open>\<^verbatim>\<open>np.random.normal(loc, scale)\<close>: one variate.\<close>

definition normal_scalar ::
  "generator \<Rightarrow> real \<Rightarrow> real \<Rightarrow> request list \<Rightarrow> real \<times> request list" where
  "normal_scalar g loc scale h = (normal_variate g h loc scale, h @ [Normal loc scale])"

text \<open>\<^verbatim>\<open>np.random.normal(loc, scale, size = n)\<close>: a block of \<open>n\<close> variates.\<close>

fun normal_array ::
  "generator \<Rightarrow> real \<Rightarrow> real \<Rightarrow> nat \<Rightarrow> request list \<Rightarrow> real list \<times> request list" where
  "normal_array g loc scale 0 h = ([], h)"
| "normal_array g loc scale (Suc n) h =
     (case normal_array g loc scale n (h @ [Normal loc scale]) of
        (zs, h') \<Rightarrow> (normal_variate g h loc scale # zs, h'))"

fun poisson_array ::
  "generator \<Rightarrow> real \<Rightarrow> nat \<Rightarrow> request list \<Rightarrow> nat list \<times> request list" where
  "poisson_array g lam 0 h = ([], h)"
| "poisson_array g lam (Suc n) h =
     (case poisson_array g lam n (h @ [Poisson lam]) of
        (ks, h') \<Rightarrow> (poisson_variate g h lam # ks, h'))"

text \<open>\<^verbatim>\<open>np.random.poisson(lam, size = n)\<close>.\<close>

definition np_random_poisson ::
  "generator \<Rightarrow> real \<Rightarrow> nat \<Rightarrow> request list \<Rightarrow> error + nat list \<times> request list" where
  "np_random_poisson g lam n h =
     (if lam < 0 then Inl ValueError else Inr (poisson_array g lam n h))"

section \<open>The routine\<close>

text \<open>
  The local variables of one invocation, as they stand when control leaves it:
  \<open>None\<close> for a variable that has not been assigned yet (\<open>v_length\<close> is \<^verbatim>\<open>length\<close>,
  \<open>v_X\<close> is \<^verbatim>\<open>X\<close>, and so on). \<open>drawn\<close> is the history of the generator.
\<close>

record frame =
  v_length :: "nat option"
  v_X :: "real list option"
  v_dw :: "real list option"
  v_dJ :: "nat list option"
  drawn :: "request list"

type_synonym lstate = "real list \<times> request list"

text \<open>Lines 65 to 75: the first assertion that fails, if any.\<close>

definition entry_asserts ::
  "real \<Rightarrow> real \<Rightarrow> pyval \<Rightarrow> pyval \<Rightarrow> pyval \<Rightarrow> pyval \<Rightarrow> string \<Rightarrow> pyval \<Rightarrow> assertion option" where
  "entry_asserts time delta_t a b xi lamb solver b_prime =
     (if \<not> time > 0 then Some Time_positive
      else if \<not> delta_t > 0 then Some Delta_t_positive
      else if solver = ''Milstein'' \<and> \<not> b_prime = PyNone then Some B_prime_is_None
      else if solver = ''Milstein'' \<and> \<not> callable b_prime then Some B_prime_callable
      else if \<not> callable a then Some A_callable
      else if \<not> callable b then Some B_callable
      else if \<not> int_or_float lamb then Some Lamb_type
      else if \<not> int_or_float xi then Some Xi_type
      else None)"

text \<open>\<^verbatim>\<open>int(x)\<close> on a float truncates towards zero.\<close>

definition py_int :: "real \<Rightarrow> int" where
  "py_int x = (if 0 \<le> x then \<lfloor>x\<rfloor> else \<lceil>x\<rceil>)"

text \<open>Lines 85 to 90: the initial value. A store into \<^verbatim>\<open>X[0]\<close> of an empty array raises
  \<^verbatim>\<open>IndexError\<close>; the right-hand side is evaluated before the store. The block of size 1
  of line 86 is stored as its single element.\<close>

definition set_initial ::
  "generator \<Rightarrow> real \<Rightarrow> pyval \<Rightarrow> lstate \<Rightarrow> error \<times> lstate + lstate" where
  "set_initial g delta_t init s =
     (case s of (X, h) \<Rightarrow>
        if init = PyNone then
          (case normal_array g 0 (sqrt delta_t) (Suc 0) h of (zs, h1) \<Rightarrow>
             if length X = 0 then Inl (IndexError, (X, h1))
             else Inr (X[0 := zs ! 0], h1))
        else if \<not> int_or_float init then Inl (AssertionError Init_type, (X, h))
        else
          (case value_of init of
             Inl e \<Rightarrow> Inl (e, (X, h))
           | Inr v \<Rightarrow>
               if length X = 0 then Inl (IndexError, (X, h))
               else Inr (X[0 := v], h)))"

text \<open>Line 102: \<^verbatim>\<open>X[i] = X[i-1] + a(X[i-1]) * delta_t + b(X[i-1]) * dw[i]\<close>, in Python's
  order of evaluation.\<close>

definition euler_update ::
  "pyval \<Rightarrow> pyval \<Rightarrow> real \<Rightarrow> real list \<Rightarrow> nat \<Rightarrow> real list \<Rightarrow> error + real list" where
  "euler_update a b delta_t dw i X =
     (if length X \<le> i - 1 then Inl IndexError
      else case call a (X ! (i - 1)) of
        Inl e \<Rightarrow> Inl e
      | Inr ax \<Rightarrow>
          (case call b (X ! (i - 1)) of
             Inl e \<Rightarrow> Inl e
           | Inr bx \<Rightarrow>
               if length dw \<le> i then Inl IndexError
               else if length X \<le> i then Inl IndexError
               else Inr (X[i := X ! (i - 1) + ax * delta_t + bx * dw ! i])))"

text \<open>Lines 111 and 112: the Milstein update, with the corrective term \<^verbatim>\<open>dw_2[i]\<close>.\<close>

definition milstein_update ::
  "pyval \<Rightarrow> pyval \<Rightarrow> pyval \<Rightarrow> real \<Rightarrow> real list \<Rightarrow> real list \<Rightarrow> nat \<Rightarrow> real list
     \<Rightarrow> error + real list" where
  "milstein_update a b b_prime delta_t dw dw_2 i X =
     (if length X \<le> i - 1 then Inl IndexError
      else case call a (X ! (i - 1)) of
        Inl e \<Rightarrow> Inl e
      | Inr ax \<Rightarrow>
          (case call b (X ! (i - 1)) of
             Inl e \<Rightarrow> Inl e
           | Inr bx \<Rightarrow>
               if length dw \<le> i then Inl IndexError
               else (case call b (X ! (i - 1)) of
                  Inl e \<Rightarrow> Inl e
                | Inr bx2 \<Rightarrow>
                    (case call b_prime (X ! (i - 1)) of
                       Inl e \<Rightarrow> Inl e
                     | Inr bpx \<Rightarrow>
                         if length dw_2 \<le> i then Inl IndexError
                         else if length X \<le> i then Inl IndexError
                         else Inr (X[i := X ! (i - 1) + ax * delta_t + bx * dw ! i
                                           + bx2 * bpx * dw_2 ! i])))))"

text \<open>Lines 103 and 104 (and 113, 114): the jump term, with one fresh normal variate
  drawn only when the jump count is positive.\<close>

definition jump_update ::
  "generator \<Rightarrow> pyval \<Rightarrow> nat list \<Rightarrow> nat \<Rightarrow> lstate \<Rightarrow> error \<times> lstate + lstate" where
  "jump_update g xi dJ i s =
     (case s of (X, h) \<Rightarrow>
        if length dJ \<le> i then Inl (IndexError, (X, h))
        else if 0 < dJ ! i then
          (if length X \<le> i then Inl (IndexError, (X, h))
           else case value_of xi of
             Inl e \<Rightarrow> Inl (e, (X, h))
           | Inr xv \<Rightarrow>
               (case normal_scalar g 0 (sqrt xv) h of (z, h1) \<Rightarrow>
                  Inr (X[i := X ! i + real (dJ ! i) * z], h1)))
        else Inr (X, h))"

text \<open>A \<^verbatim>\<open>for\<close> loop over a list of indices; an exception in the body ends it.\<close>

fun for_loop ::
  "(nat \<Rightarrow> lstate \<Rightarrow> error \<times> lstate + lstate) \<Rightarrow> nat list \<Rightarrow> lstate
     \<Rightarrow> error \<times> lstate + lstate" where
  "for_loop body [] s = Inr s"
| "for_loop body (i # js) s =
     (case body i s of Inl e \<Rightarrow> Inl e | Inr s' \<Rightarrow> for_loop body js s')"

definition euler_body ::
  "generator \<Rightarrow> pyval \<Rightarrow> pyval \<Rightarrow> real \<Rightarrow> pyval \<Rightarrow> real list \<Rightarrow> nat list \<Rightarrow> nat \<Rightarrow> lstate
     \<Rightarrow> error \<times> lstate + lstate" where
  "euler_body g a b delta_t xi dw dJ i s =
     (case s of (X, h) \<Rightarrow>
        (case euler_update a b delta_t dw i X of
           Inl e \<Rightarrow> Inl (e, (X, h))
         | Inr X1 \<Rightarrow> jump_update g xi dJ i (X1, h)))"

definition milstein_body ::
  "generator \<Rightarrow> pyval \<Rightarrow> pyval \<Rightarrow> pyval \<Rightarrow> real \<Rightarrow> pyval \<Rightarrow> real list \<Rightarrow> real list \<Rightarrow> nat list
     \<Rightarrow> nat \<Rightarrow> lstate \<Rightarrow> error \<times> lstate + lstate" where
  "milstein_body g a b b_prime delta_t xi dw dw_2 dJ i s =
     (case s of (X, h) \<Rightarrow>
        (case milstein_update a b b_prime delta_t dw dw_2 i X of
           Inl e \<Rightarrow> Inl (e, (X, h))
         | Inr X1 \<Rightarrow> jump_update g xi dJ i (X1, h)))"

text \<open>Lines 100 to 104: the Euler branch.\<close>

definition euler_branch ::
  "generator \<Rightarrow> pyval \<Rightarrow> pyval \<Rightarrow> real \<Rightarrow> pyval \<Rightarrow> nat \<Rightarrow> real list \<Rightarrow> nat list \<Rightarrow> lstate
     \<Rightarrow> error \<times> lstate + lstate" where
  "euler_branch g a b delta_t xi length' dw dJ s =
     for_loop (euler_body g a b delta_t xi dw dJ) [1..<length'] s"

text \<open>Line 108: \<^verbatim>\<open>dw_2 = (dw**2 - delta_t) * 0.5\<close>, on the whole array.\<close>

definition corrective :: "real list \<Rightarrow> real \<Rightarrow> real list" where
  "corrective dw delta_t = map (\<lambda>w. (w\<^sup>2 - delta_t) * 0.5) dw"

text \<open>Lines 106 to 114: the Milstein branch.\<close>

definition milstein_branch ::
  "generator \<Rightarrow> pyval \<Rightarrow> pyval \<Rightarrow> pyval \<Rightarrow> real \<Rightarrow> pyval \<Rightarrow> nat \<Rightarrow> real list \<Rightarrow> nat list
     \<Rightarrow> lstate \<Rightarrow> error \<times> lstate + lstate" where
  "milstein_branch g a b b_prime delta_t xi length' dw dJ s =
     (let dw_2 = corrective dw delta_t
      in for_loop (milstein_body g a b b_prime delta_t xi dw dw_2 dJ) [1..<length'] s)"

text \<open>The frame when an exception leaves the routine after the array was allocated.\<close>

definition at_exit :: "frame \<Rightarrow> lstate \<Rightarrow> frame" where
  "at_exit fr s = fr\<lparr>v_X := Some (fst s), drawn := snd s\<rparr>"

text \<open>Lines 78 to 116, entered once the assertions of lines 65 to 75 have passed.\<close>

definition simulate ::
  "generator \<Rightarrow> request list \<Rightarrow> real \<Rightarrow> real \<Rightarrow> pyval \<Rightarrow> pyval \<Rightarrow> pyval \<Rightarrow> pyval \<Rightarrow> pyval
     \<Rightarrow> string \<Rightarrow> pyval \<Rightarrow> error \<times> frame + real list \<times> frame" where
  "simulate g h0 time delta_t a b xi lamb init solver b_prime =
     (let length' = nat (py_int (time / delta_t));
          fr1 = \<lparr>v_length = Some length', v_X = Some (replicate length' 0), v_dw = None,
                 v_dJ = None, drawn = h0\<rparr>
      in (case set_initial g delta_t init (replicate length' 0, h0) of
        Inl (e, s) \<Rightarrow> Inl (e, at_exit fr1 s)
      | Inr (X1, h1) \<Rightarrow>
          (case normal_array g 0 (sqrt delta_t) length' h1 of (dw, h2) \<Rightarrow>
             (let fr2 = fr1\<lparr>v_X := Some X1, v_dw := Some dw, drawn := h2\<rparr>
              in (case value_of lamb of
                Inl e \<Rightarrow> Inl (e, fr2)
              | Inr lv \<Rightarrow>
                  (case np_random_poisson g (lv * delta_t) length' h2 of
                     Inl e \<Rightarrow> Inl (e, fr2)
                   | Inr (dJ, h3) \<Rightarrow>
                       (let fr3 = fr2\<lparr>v_dJ := Some dJ, drawn := h3\<rparr>
                        in (case (if solver = ''Euler''
                                  then euler_branch g a b delta_t xi length' dw dJ (X1, h3)
                                  else Inr (X1, h3)) of
                          Inl (e, s) \<Rightarrow> Inl (e, at_exit fr3 s)
                        | Inr s4 \<Rightarrow>
                            (case (if solver = ''Milstein''
                                   then milstein_branch g a b b_prime delta_t xi length'
                                          dw dJ s4
                                   else Inr s4) of
                               Inl (e, s) \<Rightarrow> Inl (e, at_exit fr3 s)
                             | Inr (X5, h5) \<Rightarrow> Inr (X5, at_exit fr3 (X5, h5)))))))))))"

text \<open>The whole routine: \<open>h0\<close> is the history of the generator at the call.\<close>

definition jdprocess ::
  "generator \<Rightarrow> request list \<Rightarrow> real \<Rightarrow> real \<Rightarrow> pyval \<Rightarrow> pyval \<Rightarrow> pyval \<Rightarrow> pyval \<Rightarrow> pyval
     \<Rightarrow> string \<Rightarrow> pyval \<Rightarrow> error \<times> frame + real list \<times> frame" where
  "jdprocess g h0 time delta_t a b xi lamb init solver b_prime =
     (case entry_asserts time delta_t a b xi lamb solver b_prime of
        Some f \<Rightarrow>
          Inl (AssertionError f,
               \<lparr>v_length = None, v_X = None, v_dw = None, v_dJ = None, drawn = h0\<rparr>)
      | None \<Rightarrow> simulate g h0 time delta_t a b xi lamb init solver b_prime)"

section \<open>Describing a run\<close>

text \<open>The definitions of this section are not part of the routine: they name the
  quantities the statements below speak about.\<close>

text \<open>The loop indices in \<open>k..<n\<close> at which the jump count is positive, in increasing order.\<close>

definition jump_sites :: "nat list \<Rightarrow> nat \<Rightarrow> nat \<Rightarrow> nat list" where
  "jump_sites dJ k n = filter (\<lambda>i. 0 < dJ ! i) [k..<n]"

text \<open>The requests the loop makes between index \<open>k\<close> and index \<open>n\<close>: one \<^verbatim>\<open>Normal(0, sqrt xi)\<close> per
  index with a positive jump count.\<close>

definition jump_requests :: "real \<Rightarrow> nat list \<Rightarrow> nat \<Rightarrow> nat \<Rightarrow> request list" where
  "jump_requests xv dJ k n = map (\<lambda>i. Normal 0 (sqrt xv)) (jump_sites dJ k n)"

text \<open>The jump term added at index \<open>i\<close> when the generator's history is \<open>h\<close>.\<close>

definition jump_term :: "generator \<Rightarrow> real \<Rightarrow> nat list \<Rightarrow> request list \<Rightarrow> nat \<Rightarrow> real" where
  "jump_term g xv dJ h i =
     (if 0 < dJ ! i then real (dJ ! i) * normal_variate g h 0 (sqrt xv) else 0)"

text \<open>A loop body that computes \<open>X[i] = G i (X[i-1])\<close> followed by the jump term.\<close>

definition step_ok ::
  "(nat \<Rightarrow> lstate \<Rightarrow> error \<times> lstate + lstate) \<Rightarrow> (nat \<Rightarrow> real \<Rightarrow> real) \<Rightarrow> generator \<Rightarrow> real
     \<Rightarrow> nat list \<Rightarrow> nat \<Rightarrow> bool" where
  "step_ok body G g xv dJ N =
     (\<forall>i X h. 1 \<le> i \<and> i < N \<and> length X = N \<longrightarrow>
        body i (X, h) =
          Inr (X[i := G i (X ! (i - 1)) + jump_term g xv dJ h i],
               h @ (if 0 < dJ ! i then [Normal 0 (sqrt xv)] else [])))"

text \<open>The requests made for \<^verbatim>\<open>X[0]\<close>: one normal variate when \<^verbatim>\<open>init\<close> is absent.\<close>

definition initial_requests :: "pyval \<Rightarrow> real \<Rightarrow> request list" where
  "initial_requests init delta_t = (if init = PyNone then [Normal 0 (sqrt delta_t)] else [])"

text \<open>\<open>x0\<close> is the initial condition: the variate drawn first when \<^verbatim>\<open>init\<close> is absent, the given
  number otherwise.\<close>

definition initial_is :: "generator \<Rightarrow> request list \<Rightarrow> real \<Rightarrow> pyval \<Rightarrow> real \<Rightarrow> bool" where
  "initial_is g h delta_t init x0 =
     (if init = PyNone then x0 = normal_variate g h 0 (sqrt delta_t)
      else int_or_float init \<and> value_of init = Inr x0)"

text \<open>The block \<^verbatim>\<open>dw\<close> of line 93, drawn right after the initial value.\<close>

definition wiener_increments ::
  "generator \<Rightarrow> request list \<Rightarrow> pyval \<Rightarrow> real \<Rightarrow> nat \<Rightarrow> real list" where
  "wiener_increments g h init delta_t N =
     fst (normal_array g 0 (sqrt delta_t) N (h @ initial_requests init delta_t))"

text \<open>The block \<^verbatim>\<open>dJ\<close> of line 96, drawn right after \<^verbatim>\<open>dw\<close>.\<close>

definition jump_counts ::
  "generator \<Rightarrow> request list \<Rightarrow> pyval \<Rightarrow> real \<Rightarrow> real \<Rightarrow> nat \<Rightarrow> nat list" where
  "jump_counts g h init delta_t lam N =
     fst (poisson_array g lam N
            (h @ initial_requests init delta_t @ replicate N (Normal 0 (sqrt delta_t))))"

text \<open>The history of the generator when the integration starts.\<close>

definition sampled_history :: "request list \<Rightarrow> pyval \<Rightarrow> real \<Rightarrow> real \<Rightarrow> nat \<Rightarrow> request list" where
  "sampled_history h init delta_t lam N =
     h @ initial_requests init delta_t @ replicate N (Normal 0 (sqrt delta_t))
       @ replicate N (Poisson lam)"

text \<open>A deterministic generator for the worked examples, and the Ornstein-Uhlenbeck
  drift and diffusion of the routine's documentation.\<close>

definition example_gen :: generator where
  "example_gen = \<lparr>normal_variate = (\<lambda>h loc scale. loc + real (length h) + 1),
                   poisson_variate = (\<lambda>h lam. length h mod 2)\<rparr>"

definition drift_ex :: "real \<Rightarrow> real" where
  "drift_ex x = - 2 * x"

definition diffusion_ex :: "real \<Rightarrow> real" where
  "diffusion_ex x = 1"

definition drift_prime_ex :: "real \<Rightarrow> real" where
  "drift_prime_ex x = - 2"

text \<open>The frame of a call that has not assigned any local variable yet.\<close>

definition no_frame :: "request list \<Rightarrow> frame" where
  "no_frame h = \<lparr>v_length = None, v_X = None, v_dw = None, v_dJ = None, drawn = h\<rparr>"

section \<open>The generator and the loop\<close>

lemma normal_array_snd: "snd (normal_array g loc sc n h) = h @ replicate n (Normal loc sc)"
  by (induction n arbitrary: h) (simp_all add: split_beta replicate_app_Cons_same)

lemma normal_array_length: "length (fst (normal_array g loc sc n h)) = n"
  by (induction n arbitrary: h) (simp_all add: split_beta)

lemma poisson_array_snd: "snd (poisson_array g lam n h) = h @ replicate n (Poisson lam)"
  by (induction n arbitrary: h) (simp_all add: split_beta replicate_app_Cons_same)

lemma poisson_array_length: "length (fst (poisson_array g lam n h)) = n"
  by (induction n arbitrary: h) (simp_all add: split_beta)

lemma jump_sites_empty: "jump_sites dJ n n = []"
  by (simp add: jump_sites_def)

lemma jump_sites_first:
  "k < n \<Longrightarrow> jump_sites dJ k n = (if 0 < dJ ! k then [k] else []) @ jump_sites dJ (Suc k) n"
  by (simp add: jump_sites_def upt_conv_Cons)

lemma jump_requests_first:
  "k < n \<Longrightarrow> jump_requests xv dJ k n =
     (if 0 < dJ ! k then [Normal 0 (sqrt xv)] else []) @ jump_requests xv dJ (Suc k) n"
  by (simp add: jump_requests_def jump_sites_first)

lemma jump_requests_empty: "jump_requests xv dJ n n = []"
  by (simp add: jump_requests_def jump_sites_def)

lemma jump_update_step:
  assumes "value_of xi = Inr xv" "length dJ = N" "i < N" "length X = N"
  shows "jump_update g xi dJ i (X, h) =
     Inr (X[i := X ! i + jump_term g xv dJ h i],
          h @ (if 0 < dJ ! i then [Normal 0 (sqrt xv)] else []))"
  using assms by (simp add: jump_update_def jump_term_def normal_scalar_def)

lemma euler_update_step:
  assumes "a = PyFunc fa" "b = PyFunc fb" "length dw = N" "1 \<le> i" "i < N" "length X = N"
  shows "euler_update a b delta_t dw i X =
     Inr (X[i := X ! (i - 1) + fa (X ! (i - 1)) * delta_t + fb (X ! (i - 1)) * dw ! i])"
  using assms by (simp add: euler_update_def)

lemma milstein_update_step:
  assumes "a = PyFunc fa" "b = PyFunc fb" "b_prime = PyFunc fbp" "length dw = N"
    "length dw_2 = N" "1 \<le> i" "i < N" "length X = N"
  shows "milstein_update a b b_prime delta_t dw dw_2 i X =
     Inr (X[i := X ! (i - 1) + fa (X ! (i - 1)) * delta_t + fb (X ! (i - 1)) * dw ! i
                 + fb (X ! (i - 1)) * fbp (X ! (i - 1)) * dw_2 ! i])"
  using assms by (simp add: milstein_update_def)

lemma for_loop_upt:
  assumes ok: "step_ok body G g xv dJ N"
  shows "length X = N \<Longrightarrow> 1 \<le> k \<Longrightarrow> k \<le> N \<Longrightarrow>
     \<exists>X'. for_loop body [k..<N] (X, h) = Inr (X', h @ jump_requests xv dJ k N)
        \<and> length X' = N
        \<and> (\<forall>j<k. X' ! j = X ! j)
        \<and> (\<forall>i. k \<le> i \<and> i < N \<longrightarrow>
              X' ! i = G i (X' ! (i - 1)) + jump_term g xv dJ (h @ jump_requests xv dJ k i) i)"
proof (induction "N - k" arbitrary: k X h)
  case 0
  then have "k = N" by simp
  then show ?case using 0 by (simp add: jump_requests_empty)
next
  case (Suc d)
  then have kN: "k < N" by simp
  let ?v = "G k (X ! (k - 1)) + jump_term g xv dJ h k"
  let ?r = "if 0 < dJ ! k then [Normal 0 (sqrt xv)] else []"
  have body: "body k (X, h) = Inr (X[k := ?v], h @ ?r)"
    using ok Suc.prems kN by (simp add: step_ok_def)
  have d: "d = N - Suc k" using Suc.hyps by simp
  have "length (X[k := ?v]) = N" using Suc.prems by simp
  from Suc.hyps(1)[OF d this, of "h @ ?r"] kN
  obtain X' where
    run: "for_loop body [Suc k..<N] (X[k := ?v], h @ ?r) =
            Inr (X', (h @ ?r) @ jump_requests xv dJ (Suc k) N)"
    and len: "length X' = N"
    and keep: "\<forall>j<Suc k. X' ! j = X[k := ?v] ! j"
    and rec: "\<forall>i. Suc k \<le> i \<and> i < N \<longrightarrow>
        X' ! i = G i (X' ! (i - 1))
                 + jump_term g xv dJ ((h @ ?r) @ jump_requests xv dJ (Suc k) i) i"
    by auto
  have hist: "\<And>i. k < i \<Longrightarrow> (h @ ?r) @ jump_requests xv dJ (Suc k) i = h @ jump_requests xv dJ k i"
    by (simp add: jump_requests_first)
  have 1: "for_loop body [k..<N] (X, h) = Inr (X', h @ jump_requests xv dJ k N)"
    using kN body run hist[OF kN] by (simp add: upt_conv_Cons)
  have 2: "\<forall>j<k. X' ! j = X ! j"
    using keep by auto
  have Xk: "X' ! k = ?v" using keep kN Suc.prems by simp
  have Xk1: "X' ! (k - 1) = X ! (k - 1)" using 2 Suc.prems by simp
  have 3: "X' ! i = G i (X' ! (i - 1)) + jump_term g xv dJ (h @ jump_requests xv dJ k i) i"
    if "k \<le> i \<and> i < N" for i
  proof (cases "i = k")
    case True
    then show ?thesis using Xk Xk1 by (simp add: jump_requests_empty)
  next
    case False
    then have "Suc k \<le> i" "k < i" using that by auto
    then show ?thesis using rec that hist[of i] by simp
  qed
  show ?case using 1 len 2 3 by blast
qed

lemma euler_body_ok:
  assumes "a = PyFunc fa" "b = PyFunc fb" "value_of xi = Inr xv" "length dw = N" "length dJ = N"
  shows "step_ok (euler_body g a b delta_t xi dw dJ)
           (\<lambda>i x. x + fa x * delta_t + fb x * dw ! i) g xv dJ N"
  unfolding step_ok_def
proof (intro allI impI)
  fix i and X :: "real list" and h :: "request list"
  assume hyp: "1 \<le> i \<and> i < N \<and> length X = N"
  then have i: "1 \<le> i" "i < N" "length X = N" by auto
  show "euler_body g a b delta_t xi dw dJ i (X, h) =
       Inr (X[i := X ! (i - 1) + fa (X ! (i - 1)) * delta_t + fb (X ! (i - 1)) * dw ! i
                   + jump_term g xv dJ h i],
            h @ (if 0 < dJ ! i then [Normal 0 (sqrt xv)] else []))"
    using i by (simp add: euler_body_def euler_update_step[OF assms(1,2,4) i]
        jump_update_step[OF assms(3,5) i(2)])
qed

lemma milstein_body_ok:
  assumes "a = PyFunc fa" "b = PyFunc fb" "b_prime = PyFunc fbp" "value_of xi = Inr xv"
    "length dw = N" "length dw_2 = N" "length dJ = N"
  shows "step_ok (milstein_body g a b b_prime delta_t xi dw dw_2 dJ)
           (\<lambda>i x. x + fa x * delta_t + fb x * dw ! i + fb x * fbp x * dw_2 ! i) g xv dJ N"
  unfolding step_ok_def
proof (intro allI impI)
  fix i and X :: "real list" and h :: "request list"
  assume hyp: "1 \<le> i \<and> i < N \<and> length X = N"
  then have i: "1 \<le> i" "i < N" "length X = N" by auto
  show "milstein_body g a b b_prime delta_t xi dw dw_2 dJ i (X, h) =
       Inr (X[i := X ! (i - 1) + fa (X ! (i - 1)) * delta_t + fb (X ! (i - 1)) * dw ! i
                   + fb (X ! (i - 1)) * fbp (X ! (i - 1)) * dw_2 ! i
                   + jump_term g xv dJ h i],
            h @ (if 0 < dJ ! i then [Normal 0 (sqrt xv)] else []))"
    using i by (simp add: milstein_body_def milstein_update_step[OF assms(1,2,3,5,6) i]
        jump_update_step[OF assms(4,7) i(2)])
qed

lemma int_or_float_value: "int_or_float v \<Longrightarrow> \<exists>r. value_of v = Inr r"
  by (cases v) (simp_all add: int_or_float_def)

lemma initial_is_ex:
  "init = PyNone \<or> int_or_float init \<Longrightarrow> \<exists>x0. initial_is g h delta_t init x0"
  using int_or_float_value[of init] by (auto simp: initial_is_def)

lemma set_initial_ok:
  assumes "initial_is g h delta_t init x0" "0 < N"
  shows "set_initial g delta_t init (replicate N 0, h) =
           Inr ((replicate N 0)[0 := x0], h @ initial_requests init delta_t)"
  using assms by (auto simp: set_initial_def initial_is_def initial_requests_def)

lemma set_initial_empty:
  assumes "initial_is g h delta_t init x0"
  shows "set_initial g delta_t init ([], h) =
           Inl (IndexError, ([], h @ initial_requests init delta_t))"
  using assms by (auto simp: set_initial_def initial_is_def initial_requests_def)

lemma set_initial_bad:
  assumes "init \<noteq> PyNone" "\<not> int_or_float init"
  shows "set_initial g delta_t init (X, h) = Inl (AssertionError Init_type, (X, h))"
  using assms by (simp add: set_initial_def)

lemma euler_branch_run:
  assumes "value_of xi = Inr xv" "length dw = N" "length dJ = N" "length X = N" "1 \<le> N"
  shows "\<exists>p. euler_branch g (PyFunc fa) (PyFunc fb) delta_t xi N dw dJ (X, h) =
               Inr (p, h @ jump_requests xv dJ 1 N)
          \<and> length p = N \<and> p ! 0 = X ! 0
          \<and> (\<forall>i. 1 \<le> i \<and> i < N \<longrightarrow>
                p ! i = p ! (i - 1) + fa (p ! (i - 1)) * delta_t + fb (p ! (i - 1)) * dw ! i
                        + jump_term g xv dJ (h @ jump_requests xv dJ 1 i) i)"
proof -
  have ok: "step_ok (euler_body g (PyFunc fa) (PyFunc fb) delta_t xi dw dJ)
           (\<lambda>i x. x + fa x * delta_t + fb x * dw ! i) g xv dJ N"
    using assms by (intro euler_body_ok) simp_all
  from for_loop_upt[OF ok assms(4) order_refl assms(5), of h]
  show ?thesis unfolding euler_branch_def by auto
qed

lemma milstein_branch_run:
  assumes "value_of xi = Inr xv" "length dw = N" "length dJ = N" "length X = N" "1 \<le> N"
  shows "\<exists>p. milstein_branch g (PyFunc fa) (PyFunc fb) (PyFunc fbp) delta_t xi N dw dJ (X, h) =
               Inr (p, h @ jump_requests xv dJ 1 N)
          \<and> length p = N \<and> p ! 0 = X ! 0
          \<and> (\<forall>i. 1 \<le> i \<and> i < N \<longrightarrow>
                p ! i = p ! (i - 1) + fa (p ! (i - 1)) * delta_t + fb (p ! (i - 1)) * dw ! i
                        + fb (p ! (i - 1)) * fbp (p ! (i - 1)) * corrective dw delta_t ! i
                        + jump_term g xv dJ (h @ jump_requests xv dJ 1 i) i)"
proof -
  have ok: "step_ok (milstein_body g (PyFunc fa) (PyFunc fb) (PyFunc fbp) delta_t xi dw
             (corrective dw delta_t) dJ)
           (\<lambda>i x. x + fa x * delta_t + fb x * dw ! i + fb x * fbp x * corrective dw delta_t ! i)
           g xv dJ N"
    using assms by (intro milstein_body_ok) (simp_all add: corrective_def)
  from for_loop_upt[OF ok assms(4) order_refl assms(5), of h]
  show ?thesis unfolding milstein_branch_def Let_def by auto
qed

lemma simulate_euler:
  assumes xi: "value_of xi = Inr xv" and lamb: "value_of lamb = Inr lv"
    and rate: "0 \<le> lv * delta_t" and N: "N = nat (py_int (time / delta_t))" "1 \<le> N"
    and init: "initial_is g h delta_t init x0"
  shows "\<exists>p. simulate g h time delta_t (PyFunc fa) (PyFunc fb) xi lamb init ''Euler'' b_prime =
           Inr (p, \<lparr>v_length = Some N, v_X = Some p,
                    v_dw = Some (wiener_increments g h init delta_t N),
                    v_dJ = Some (jump_counts g h init delta_t (lv * delta_t) N),
                    drawn = sampled_history h init delta_t (lv * delta_t) N
                      @ jump_requests xv (jump_counts g h init delta_t (lv * delta_t) N) 1 N\<rparr>)
         \<and> length p = N \<and> p ! 0 = x0
         \<and> (\<forall>i. 1 \<le> i \<and> i < N \<longrightarrow>
               p ! i = p ! (i - 1) + fa (p ! (i - 1)) * delta_t
                       + fb (p ! (i - 1)) * wiener_increments g h init delta_t N ! i
                       + jump_term g xv (jump_counts g h init delta_t (lv * delta_t) N)
                           (sampled_history h init delta_t (lv * delta_t) N
                              @ jump_requests xv
                                  (jump_counts g h init delta_t (lv * delta_t) N) 1 i) i)"
proof -
  let ?dw = "wiener_increments g h init delta_t N"
  let ?dJ = "jump_counts g h init delta_t (lv * delta_t) N"
  let ?h3 = "sampled_history h init delta_t (lv * delta_t) N"
  let ?X1 = "(replicate N (0::real))[0 := x0]"
  have "length ?dw = N" "length ?dJ = N" "length ?X1 = N"
    by (simp_all add: wiener_increments_def jump_counts_def normal_array_length
        poisson_array_length)
  from euler_branch_run[OF xi this N(2), of g fa fb delta_t ?h3]
  obtain p where run: "euler_branch g (PyFunc fa) (PyFunc fb) delta_t xi N ?dw ?dJ (?X1, ?h3) =
               Inr (p, ?h3 @ jump_requests xv ?dJ 1 N)"
    and rest: "length p = N" "p ! 0 = ?X1 ! 0"
      "\<forall>i. 1 \<le> i \<and> i < N \<longrightarrow>
                p ! i = p ! (i - 1) + fa (p ! (i - 1)) * delta_t + fb (p ! (i - 1)) * ?dw ! i
                        + jump_term g xv ?dJ (?h3 @ jump_requests xv ?dJ 1 i) i"
    by blast
  have "simulate g h time delta_t (PyFunc fa) (PyFunc fb) xi lamb init ''Euler'' b_prime =
     Inr (p, \<lparr>v_length = Some N, v_X = Some p, v_dw = Some ?dw, v_dJ = Some ?dJ,
              drawn = ?h3 @ jump_requests xv ?dJ 1 N\<rparr>)"
    using N rate lamb run
    by (simp add: simulate_def Let_def set_initial_ok[OF init] split_beta normal_array_snd
        poisson_array_snd np_random_poisson_def at_exit_def wiener_increments_def
        jump_counts_def sampled_history_def flip: N(1))
  moreover have "p ! 0 = x0" using rest N by simp
  ultimately show ?thesis using rest by blast
qed

section \<open>The entry checks\<close>

lemma entry_asserts_None:
  "entry_asserts time delta_t a b xi lamb solver b_prime = None \<longleftrightarrow>
     0 < time \<and> 0 < delta_t \<and> solver \<noteq> ''Milstein'' \<and> callable a \<and> callable b
       \<and> int_or_float lamb \<and> int_or_float xi"
  by (cases b_prime) (simp_all add: entry_asserts_def)

lemma jdprocess_entry_fail:
  "entry_asserts time delta_t a b xi lamb solver b_prime = Some f \<Longrightarrow>
     jdprocess g h time delta_t a b xi lamb init solver b_prime
       = Inl (AssertionError f, no_frame h)"
  by (simp add: jdprocess_def no_frame_def)

lemma jdprocess_entry_pass:
  "entry_asserts time delta_t a b xi lamb solver b_prime = None \<Longrightarrow>
     jdprocess g h time delta_t a b xi lamb init solver b_prime
       = simulate g h time delta_t a b xi lamb init solver b_prime"
  by (simp add: jdprocess_def)

lemma simulate_bad_init:
  assumes "init \<noteq> PyNone" "\<not> int_or_float init" "N = nat (py_int (time / delta_t))"
  shows "simulate g h time delta_t a b xi lamb init solver b_prime =
     Inl (AssertionError Init_type,
          \<lparr>v_length = Some N, v_X = Some (replicate N 0), v_dw = None, v_dJ = None,
             drawn = h\<rparr>)"
  using assms by (simp add: simulate_def Let_def set_initial_bad at_exit_def)

text \<open>
  C1: with \<^verbatim>\<open>solver = 'Milstein'\<close> and \<^verbatim>\<open>b_prime\<close> supplied as a function, the two checks on
  \<^verbatim>\<open>b_prime\<close> (it equals \<^verbatim>\<open>None\<close>; it is callable) cannot both hold, the entry checks never
  pass, and the call ends in an assertion failure with no local variable assigned, so the
  Milstein loop is not reached. When \<^verbatim>\<open>time\<close> and \<^verbatim>\<open>delta_t\<close> are positive the failing
  assertion is the one of line 68.
\<close>

theorem milstein_b_prime_contradiction:
  "\<not> (v = PyNone \<and> callable v)
   \<and> entry_asserts time delta_t a b xi lamb ''Milstein'' (PyFunc bp) \<noteq> None
   \<and> (\<exists>f. jdprocess g h time delta_t a b xi lamb init ''Milstein'' (PyFunc bp)
            = Inl (AssertionError f, no_frame h))
   \<and> (0 < time \<and> 0 < delta_t \<longrightarrow>
        jdprocess g h time delta_t a b xi lamb init ''Milstein'' (PyFunc bp)
          = Inl (AssertionError B_prime_is_None, no_frame h))"
  by (cases v) (simp_all add: jdprocess_def entry_asserts_def no_frame_def)

theorem milstein_b_prime_contradiction_witness:
  "(0::real) < 1 \<and> (0::real) < 1 / 100
   \<and> jdprocess example_gen [] 1 (1 / 100) (PyFunc drift_ex) (PyFunc diffusion_ex)
        (PyFloat 0) (PyFloat 0) (PyFloat 0) ''Milstein'' (PyFunc diffusion_ex)
      = Inl (AssertionError B_prime_is_None, no_frame [])"
  using milstein_b_prime_contradiction[of PyNone 1 "1 / 100" "PyFunc drift_ex"
      "PyFunc diffusion_ex" "PyFloat 0" "PyFloat 0" diffusion_ex example_gen "[]" "PyFloat 0"]
  by simp

text \<open>
  C4: a call that violates an entry precondition (\<^verbatim>\<open>time\<close> not positive, \<^verbatim>\<open>delta_t\<close> not
  positive, \<^verbatim>\<open>a\<close> or \<^verbatim>\<open>b\<close> not callable, \<^verbatim>\<open>solver = 'Milstein'\<close> with \<^verbatim>\<open>b_prime = None\<close>)
  ends in an assertion failure: no path is returned, nothing was allocated or written and
  no variate was drawn.
\<close>

theorem entry_violation_aborts:
  assumes "time \<le> 0 \<or> delta_t \<le> 0 \<or> \<not> callable a \<or> \<not> callable b
           \<or> (solver = ''Milstein'' \<and> b_prime = PyNone)"
  shows "\<exists>f. jdprocess g h time delta_t a b xi lamb init solver b_prime
              = Inl (AssertionError f, no_frame h)"
proof -
  have "entry_asserts time delta_t a b xi lamb solver b_prime \<noteq> None"
    using assms by (auto simp: entry_asserts_None)
  then show ?thesis by (auto simp: jdprocess_entry_fail)
qed

theorem entry_violation_aborts_witness:
  "(\<exists>f. jdprocess example_gen [] (- 1) 1 (PyFunc drift_ex) (PyFunc diffusion_ex)
        (PyFloat 0) (PyFloat 0) (PyFloat 0) ''Euler'' PyNone
      = Inl (AssertionError f, no_frame []))
   \<and> (\<exists>f. jdprocess example_gen [] 1 0 (PyFunc drift_ex) (PyFunc diffusion_ex)
        (PyFloat 0) (PyFloat 0) (PyFloat 0) ''Euler'' PyNone
      = Inl (AssertionError f, no_frame []))
   \<and> (\<exists>f. jdprocess example_gen [] 1 1 (PyInt 3) (PyFunc diffusion_ex)
        (PyFloat 0) (PyFloat 0) (PyFloat 0) ''Euler'' PyNone
      = Inl (AssertionError f, no_frame []))
   \<and> (\<exists>f. jdprocess example_gen [] 1 1 (PyFunc drift_ex) (PyFunc diffusion_ex)
        (PyFloat 0) (PyFloat 0) (PyFloat 0) ''Milstein'' PyNone
      = Inl (AssertionError f, no_frame []))"
proof (intro conjI)
  show "\<exists>f. jdprocess example_gen [] (- 1) 1 (PyFunc drift_ex) (PyFunc diffusion_ex)
        (PyFloat 0) (PyFloat 0) (PyFloat 0) ''Euler'' PyNone
      = Inl (AssertionError f, no_frame [])"
    by (rule entry_violation_aborts) simp
  show "\<exists>f. jdprocess example_gen [] 1 0 (PyFunc drift_ex) (PyFunc diffusion_ex)
        (PyFloat 0) (PyFloat 0) (PyFloat 0) ''Euler'' PyNone
      = Inl (AssertionError f, no_frame [])"
    by (rule entry_violation_aborts) simp
  show "\<exists>f. jdprocess example_gen [] 1 1 (PyInt 3) (PyFunc diffusion_ex)
        (PyFloat 0) (PyFloat 0) (PyFloat 0) ''Euler'' PyNone
      = Inl (AssertionError f, no_frame [])"
    by (rule entry_violation_aborts) simp
  show "\<exists>f. jdprocess example_gen [] 1 1 (PyFunc drift_ex) (PyFunc diffusion_ex)
        (PyFloat 0) (PyFloat 0) (PyFloat 0) ''Milstein'' PyNone
      = Inl (AssertionError f, no_frame [])"
    by (rule entry_violation_aborts) simp
qed

text \<open>
  C10: \<^verbatim>\<open>xi\<close>, \<^verbatim>\<open>lamb\<close> and a provided \<^verbatim>\<open>init\<close> are accepted only when their type is exactly
  \<^verbatim>\<open>int\<close> or \<^verbatim>\<open>float\<close>: with any other value (a numpy float or integer scalar and a
  \<^verbatim>\<open>bool\<close> among them) the call ends in an assertion failure, whatever the other
  arguments are.
\<close>

theorem exact_type_required:
  "(\<not> int_or_float xi \<or> \<not> int_or_float lamb \<or> (init \<noteq> PyNone \<and> \<not> int_or_float init) \<longrightarrow>
      (\<exists>f fr. jdprocess g h time delta_t a b xi lamb init solver b_prime
                 = Inl (AssertionError f, fr) \<and> drawn fr = h))
   \<and> (int_or_float v \<longleftrightarrow> (\<exists>n. v = PyInt n) \<or> (\<exists>r. v = PyFloat r))
   \<and> \<not> int_or_float (NpFloat64 r) \<and> \<not> int_or_float (NpInt64 w) \<and> \<not> int_or_float (PyBool q)"
proof -
  have 1: "\<exists>f fr. jdprocess g h time delta_t a b xi lamb init solver b_prime
                 = Inl (AssertionError f, fr) \<and> drawn fr = h"
    if bad: "\<not> int_or_float xi \<or> \<not> int_or_float lamb \<or> (init \<noteq> PyNone \<and> \<not> int_or_float init)"
  proof (cases "entry_asserts time delta_t a b xi lamb solver b_prime")
    case (Some f)
    then show ?thesis by (auto simp: jdprocess_entry_fail no_frame_def)
  next
    case None
    then have "init \<noteq> PyNone \<and> \<not> int_or_float init"
      using bad by (auto simp: entry_asserts_None)
    then show ?thesis
      using None by (simp add: jdprocess_entry_pass simulate_bad_init)
  qed
  have 2: "int_or_float v \<longleftrightarrow> (\<exists>n. v = PyInt n) \<or> (\<exists>r. v = PyFloat r)"
    by (cases v) (simp_all add: int_or_float_def)
  show ?thesis using 1 2 by (simp add: int_or_float_def)
qed

theorem exact_type_required_witness:
  "\<not> int_or_float (NpFloat64 (1 / 2))
   \<and> (\<exists>f fr. jdprocess example_gen [] 1 1 (PyFunc drift_ex) (PyFunc diffusion_ex)
         (NpFloat64 (1 / 2)) (PyFloat 0) (PyFloat 0) ''Euler'' PyNone
        = Inl (AssertionError f, fr) \<and> drawn fr = [])"
  using exact_type_required[of "NpFloat64 (1 / 2)" "PyFloat 0" "PyFloat 0" example_gen "[]" 1 1
      "PyFunc drift_ex" "PyFunc diffusion_ex" "''Euler''" PyNone "PyNone" 0 0 True]
  by (simp add: int_or_float_def)

section \<open>Outcomes of a run\<close>

lemma py_int_steps:
  assumes "0 < delta_t" "delta_t \<le> time"
  shows "1 \<le> nat (py_int (time / delta_t))"
proof -
  have "1 \<le> time / delta_t" using assms by simp
  then have "1 \<le> \<lfloor>time / delta_t\<rfloor>" by simp
  then have "1 \<le> nat \<lfloor>time / delta_t\<rfloor>" by linarith
  moreover have "0 \<le> time / delta_t" using assms by simp
  ultimately show ?thesis by (simp add: py_int_def)
qed

lemma py_int_none:
  assumes "0 < time" "time < delta_t"
  shows "nat (py_int (time / delta_t)) = 0"
proof -
  have "time / delta_t < 1" using assms by simp
  then have "\<lfloor>time / delta_t\<rfloor> < 1" by linarith
  then show ?thesis using assms by (simp add: py_int_def)
qed

lemma py_int_one: "0 < time \<Longrightarrow> nat (py_int (time / time)) = 1"
  by (simp add: py_int_def)

lemma simulate_other:
  assumes lamb: "value_of lamb = Inr lv"
    and rate: "0 \<le> lv * delta_t" and N: "N = nat (py_int (time / delta_t))" "1 \<le> N"
    and init: "initial_is g h delta_t init x0"
    and sol: "solver \<noteq> ''Euler''" "solver \<noteq> ''Milstein''"
  shows "simulate g h time delta_t a b xi lamb init solver b_prime =
           Inr (x0 # replicate (N - 1) 0,
                \<lparr>v_length = Some N, v_X = Some (x0 # replicate (N - 1) 0),
                   v_dw = Some (wiener_increments g h init delta_t N),
                   v_dJ = Some (jump_counts g h init delta_t (lv * delta_t) N),
                   drawn = sampled_history h init delta_t (lv * delta_t) N\<rparr>)"
proof -
  obtain m where m: "N = Suc m" using N(2) by (cases N) simp_all
  have X1: "(replicate N 0)[0 := x0] = x0 # replicate (N - 1) 0"
    by (simp add: m)
  have "0 < N" using N(2) by simp
  then show ?thesis
    using rate lamb sol
    by (simp add: simulate_def Let_def set_initial_ok[OF init] split_beta normal_array_snd
        poisson_array_snd np_random_poisson_def at_exit_def wiener_increments_def
        jump_counts_def sampled_history_def X1 flip: N(1))
qed

lemma simulate_empty:
  assumes N: "nat (py_int (time / delta_t)) = 0"
    and init: "initial_is g h delta_t init x0"
  shows "simulate g h time delta_t a b xi lamb init solver b_prime =
           Inl (IndexError,
                \<lparr>v_length = Some 0, v_X = Some [], v_dw = None, v_dJ = None,
                   drawn = h @ initial_requests init delta_t\<rparr>)"
  using N by (simp add: simulate_def Let_def set_initial_empty[OF init] at_exit_def)

lemma simulate_negative_rate:
  assumes lamb: "value_of lamb = Inr lv"
    and rate: "lv * delta_t < 0" and N: "N = nat (py_int (time / delta_t))" "1 \<le> N"
    and init: "initial_is g h delta_t init x0"
  shows "simulate g h time delta_t a b xi lamb init solver b_prime =
           Inl (ValueError,
                \<lparr>v_length = Some N, v_X = Some ((replicate N 0)[0 := x0]),
                   v_dw = Some (wiener_increments g h init delta_t N), v_dJ = None,
                   drawn = h @ initial_requests init delta_t
                             @ replicate N (Normal 0 (sqrt delta_t))\<rparr>)"
  using N rate lamb
  by (simp add: simulate_def Let_def set_initial_ok[OF init] split_beta normal_array_snd
      np_random_poisson_def wiener_increments_def flip: N(1))

lemma callable_PyFunc: "callable v \<Longrightarrow> \<exists>f. v = PyFunc f"
  by (cases v) simp_all

text \<open>A call that passes every check with \<^verbatim>\<open>time < delta_t\<close> has no step: the store into
  \<^verbatim>\<open>X[0]\<close> raises. Every call that returns has at least one step, and the length of its
  path is \<^verbatim>\<open>int(time / delta_t)\<close>.\<close>

lemma short_horizon_raises:
  assumes "entry_asserts time delta_t a b xi lamb solver b_prime = None"
    "time < delta_t" "init = PyNone \<or> int_or_float init"
  shows "jdprocess g h time delta_t a b xi lamb init solver b_prime =
           Inl (IndexError,
                \<lparr>v_length = Some 0, v_X = Some [], v_dw = None, v_dJ = None,
                   drawn = h @ initial_requests init delta_t\<rparr>)"
proof -
  obtain x0 where x0: "initial_is g h delta_t init x0"
    using initial_is_ex[OF assms(3)] by blast
  have "0 < time" using assms(1) by (simp add: entry_asserts_None)
  then have N0: "nat (py_int (time / delta_t)) = 0"
    using assms(2) by (rule py_int_none)
  show ?thesis
    by (simp add: jdprocess_entry_pass[OF assms(1)] simulate_empty[OF N0 x0])
qed

lemma returned_length:
  assumes "jdprocess g h time delta_t a b xi lamb init solver b_prime = Inr (p, fr)"
  shows "length p = nat (py_int (time / delta_t)) \<and> 1 \<le> length p"
proof -
  let ?N = "nat (py_int (time / delta_t))"
  have pass: "entry_asserts time delta_t a b xi lamb solver b_prime = None"
    using assms by (cases "entry_asserts time delta_t a b xi lamb solver b_prime")
      (simp_all add: jdprocess_def)
  then have e: "solver \<noteq> ''Milstein''" "callable a" "callable b" "int_or_float lamb"
    "int_or_float xi"
    by (simp_all add: entry_asserts_None)
  have sim: "simulate g h time delta_t a b xi lamb init solver b_prime = Inr (p, fr)"
    using assms by (simp add: jdprocess_entry_pass[OF pass])
  have init: "init = PyNone \<or> int_or_float init"
    using sim simulate_bad_init[of init ?N time delta_t g h a b xi lamb solver b_prime]
    by auto
  then obtain x0 where x0: "initial_is g h delta_t init x0"
    using initial_is_ex by blast
  obtain fa fb where ab: "a = PyFunc fa" "b = PyFunc fb"
    using e(2,3) callable_PyFunc by blast
  obtain xv lv where v: "value_of xi = Inr xv" "value_of lamb = Inr lv"
    using int_or_float_value e(4,5) by blast
  have N: "1 \<le> ?N"
    using sim simulate_empty[OF _ x0, of time a b xi lamb solver b_prime]
    by (cases "?N = 0") simp_all
  have rate: "0 \<le> lv * delta_t"
    using sim simulate_negative_rate[OF v(2) _ refl N x0, of a b xi solver b_prime]
    by (cases "lv * delta_t < 0") simp_all
  show ?thesis
  proof (cases "solver = ''Euler''")
    case True
    from simulate_euler[OF v rate refl N x0, of fa fb b_prime]
    show ?thesis using sim N unfolding ab True by auto
  next
    case False
    from simulate_other[OF v(2) rate refl N x0 False e(1), of a b xi b_prime]
    show ?thesis using sim N by auto
  qed
qed

text \<open>
  C7, as stated, fails: with a string for \<^verbatim>\<open>init\<close> the assertion of line 88 fails after
  \<^verbatim>\<open>length\<close> has been computed and \<^verbatim>\<open>X\<close> allocated.
\<close>

theorem init_type_checked_after_allocation:
  "jdprocess example_gen [] 2 1 (PyFunc drift_ex) (PyFunc diffusion_ex) (PyFloat 0) (PyFloat 0)
     (PyStr ''zero'') ''Euler'' PyNone
   = Inl (AssertionError Init_type,
          \<lparr>v_length = Some 2, v_X = Some [0, 0], v_dw = None, v_dJ = None, drawn = []\<rparr>)"
  by (simp add: jdprocess_def entry_asserts_def int_or_float_def simulate_def set_initial_def
      py_int_def at_exit_def numeral_2_eq_2)

text \<open>
  C7, amended: when \<^verbatim>\<open>init\<close> is provided and is not an \<^verbatim>\<open>int\<close> or a \<^verbatim>\<open>float\<close>, the call ends in
  an assertion failure before any variate is drawn, before \<^verbatim>\<open>dw\<close> and \<^verbatim>\<open>dJ\<close> exist and before
  any entry of the path is written. When the entry checks pass, the failing assertion is
  the one of line 88, reached after \<^verbatim>\<open>length\<close> was computed and \<^verbatim>\<open>X\<close> allocated (all zeros);
  otherwise an entry check fails first and nothing was assigned.
\<close>

theorem init_type_failure:
  assumes "init \<noteq> PyNone" "\<not> int_or_float init"
  shows "\<exists>f fr. jdprocess g h time delta_t a b xi lamb init solver b_prime
                  = Inl (AssertionError f, fr)
           \<and> drawn fr = h \<and> v_dw fr = None \<and> v_dJ fr = None
           \<and> (if entry_asserts time delta_t a b xi lamb solver b_prime = None
               then f = Init_type
                 \<and> v_length fr = Some (nat (py_int (time / delta_t)))
                 \<and> v_X fr = Some (replicate (nat (py_int (time / delta_t))) 0)
               else v_length fr = None \<and> v_X fr = None)"
proof (cases "entry_asserts time delta_t a b xi lamb solver b_prime")
  case None
  then show ?thesis
    using assms by (simp add: jdprocess_entry_pass simulate_bad_init)
next
  case (Some f)
  then show ?thesis
    by (simp add: jdprocess_entry_fail no_frame_def)
qed

theorem init_type_failure_witness:
  "PyStr ''zero'' \<noteq> PyNone \<and> \<not> int_or_float (PyStr ''zero'')
   \<and> (\<exists>f fr. jdprocess example_gen [] 2 1 (PyFunc drift_ex) (PyFunc diffusion_ex) (PyFloat 0)
                 (PyFloat 0) (PyStr ''zero'') ''Euler'' PyNone = Inl (AssertionError f, fr)
         \<and> drawn fr = [] \<and> v_dw fr = None \<and> v_dJ fr = None
         \<and> f = Init_type \<and> v_length fr = Some 2 \<and> v_X fr = Some [0, 0])"
proof -
  have 1: "PyStr ''zero'' \<noteq> PyNone" by simp
  have 2: "\<not> int_or_float (PyStr ''zero'')" by (simp add: int_or_float_def)
  have 3: "entry_asserts 2 1 (PyFunc drift_ex) (PyFunc diffusion_ex) (PyFloat 0) (PyFloat 0)
             ''Euler'' PyNone = None"
    by (simp add: entry_asserts_def int_or_float_def)
  show ?thesis
    using init_type_failure[OF 1 2, of example_gen "[]" 2 1 "PyFunc drift_ex"
        "PyFunc diffusion_ex" "PyFloat 0" "PyFloat 0" "''Euler''" PyNone] 1 2
    by (simp add: 3 py_int_def numeral_2_eq_2)
qed

text \<open>
  C2 (every valid call returns a sequence of length \<open>floor(T/\<Delta>t)\<close>): with \<^verbatim>\<open>time = 1\<close> and
  \<^verbatim>\<open>delta_t = 2\<close> every check passes, \<^verbatim>\<open>length\<close> is 0, and the store into \<^verbatim>\<open>X[0]\<close> of line 90
  raises \<^verbatim>\<open>IndexError\<close>: no sequence, of length 0 or other, is returned.
\<close>

theorem empty_path_index_error:
  "jdprocess example_gen [] 1 2 (PyFunc drift_ex) (PyFunc diffusion_ex) (PyFloat 0) (PyFloat 0)
     (PyFloat 0) ''Euler'' PyNone
   = Inl (IndexError,
          \<lparr>v_length = Some 0, v_X = Some [], v_dw = None, v_dJ = None, drawn = []\<rparr>)"
  by (simp add: jdprocess_def entry_asserts_def int_or_float_def simulate_def set_initial_def
      py_int_def at_exit_def)

text \<open>
  C8: a valid call with \<^verbatim>\<open>time = delta_t\<close> (entry checks passed, a scheme other than
  \<^verbatim>\<open>'Milstein'\<close>, which no call passes, a rate that is not negative, \<^verbatim>\<open>init\<close> absent or a
  number) returns a path of length 1 that holds the initial condition only: the loop
  ranges over no index, and the generator served the initial draw (if any), one Wiener
  increment and one jump count.
\<close>

theorem single_step_path:
  assumes "0 < time" "callable a" "callable b" "int_or_float xi" "int_or_float lamb"
    "value_of lamb = Inr lv" "0 \<le> lv" "init = PyNone \<or> int_or_float init"
    "solver \<noteq> ''Milstein''"
  shows "\<exists>x0 fr. jdprocess g h time time a b xi lamb init solver b_prime = Inr ([x0], fr)
           \<and> initial_is g h time init x0
           \<and> [1..<nat (py_int (time / time))] = []
           \<and> drawn fr = h @ initial_requests init time
                           @ [Normal 0 (sqrt time), Poisson (lv * time)]"
proof -
  obtain x0 where x0: "initial_is g h time init x0"
    using initial_is_ex[OF assms(8)] by blast
  obtain fa fb where ab: "a = PyFunc fa" "b = PyFunc fb"
    using assms(2,3) callable_PyFunc by blast
  obtain xv where xv: "value_of xi = Inr xv"
    using int_or_float_value[OF assms(4)] by blast
  have pass: "entry_asserts time time a b xi lamb solver b_prime = None"
    using assms by (simp add: entry_asserts_None)
  have N: "1 = nat (py_int (time / time))" "1 \<le> (1::nat)"
    using assms(1) by (simp_all add: py_int_def)
  have rate: "0 \<le> lv * time" using assms(1,7) by simp
  have run: "\<exists>fr. simulate g h time time a b xi lamb init solver b_prime = Inr ([x0], fr)
           \<and> drawn fr = sampled_history h init time (lv * time) 1"
  proof (cases "solver = ''Euler''")
    case True
    from simulate_euler[OF xv assms(6) rate N x0, of fa fb b_prime]
    obtain p fr where p: "simulate g h time time (PyFunc fa) (PyFunc fb) xi lamb init ''Euler''
         b_prime = Inr (p, fr)" "length p = 1" "p ! 0 = x0"
      "drawn fr = sampled_history h init time (lv * time) 1
              @ jump_requests xv (jump_counts g h init time (lv * time) 1) 1 1"
      by force
    have "p = [x0]" using p(2,3) by (cases p) simp_all
    then show ?thesis using p True ab by (simp add: jump_requests_empty)
  next
    case False
    from simulate_other[OF assms(6) rate N x0 False assms(9), of a b xi b_prime]
    show ?thesis by simp
  qed
  show ?thesis
    using run x0 assms(1)
    by (auto simp: jdprocess_entry_pass[OF pass] sampled_history_def py_int_def)
qed

theorem single_step_path_witness:
  "(0::real) < 1 \<and> callable (PyFunc drift_ex) \<and> callable (PyFunc diffusion_ex)
   \<and> int_or_float (PyFloat 1) \<and> int_or_float (PyFloat 2) \<and> value_of (PyFloat 2) = Inr 2
   \<and> (0::real) \<le> 2 \<and> (PyFloat 0 = PyNone \<or> int_or_float (PyFloat 0))
   \<and> ''Euler'' \<noteq> ''Milstein''
   \<and> (\<exists>fr. jdprocess example_gen [] 1 1 (PyFunc drift_ex) (PyFunc diffusion_ex) (PyFloat 1)
              (PyFloat 2) (PyFloat 0) ''Euler'' PyNone = Inr ([0], fr)
         \<and> drawn fr = [Normal 0 (sqrt 1), Poisson (2 * 1)])"
proof -
  have 1: "int_or_float (PyFloat 1)" "int_or_float (PyFloat 2)"
    "PyFloat 0 = PyNone \<or> int_or_float (PyFloat 0)"
    by (simp_all add: int_or_float_def)
  have 2: "value_of (PyFloat 2) = Inr 2" by simp
  from single_step_path[of 1 "PyFunc drift_ex" "PyFunc diffusion_ex" "PyFloat 1" "PyFloat 2" 2
      "PyFloat 0" "''Euler''" example_gen "[]" PyNone]
  show ?thesis using 1 2 by (auto simp: initial_is_def initial_requests_def)
qed

text \<open>
  C9: with a solver string other than \<^verbatim>\<open>'Euler'\<close> and \<^verbatim>\<open>'Milstein'\<close> and otherwise valid
  arguments (entry checks passed, at least one step so that the path has an index 0, a
  rate that is not negative, \<^verbatim>\<open>init\<close> absent or a number), the call raises nothing and
  returns the initial condition followed by \<open>N - 1\<close> zeros; no jump-size variate is drawn.
\<close>

theorem unknown_solver_zero_path:
  assumes "solver \<noteq> ''Euler''" "solver \<noteq> ''Milstein''"
    "0 < time" "0 < delta_t" "delta_t \<le> time" "callable a" "callable b"
    "int_or_float xi" "int_or_float lamb" "value_of lamb = Inr lv" "0 \<le> lv"
    "init = PyNone \<or> int_or_float init"
  shows "\<exists>x0 fr. jdprocess g h time delta_t a b xi lamb init solver b_prime
                   = Inr (x0 # replicate (nat (py_int (time / delta_t)) - 1) 0, fr)
           \<and> initial_is g h delta_t init x0
           \<and> drawn fr = sampled_history h init delta_t (lv * delta_t)
                           (nat (py_int (time / delta_t)))"
proof -
  obtain x0 where x0: "initial_is g h delta_t init x0"
    using initial_is_ex[OF assms(12)] by blast
  have pass: "entry_asserts time delta_t a b xi lamb solver b_prime = None"
    using assms by (simp add: entry_asserts_None)
  have rate: "0 \<le> lv * delta_t" using assms(4,11) by simp
  have N: "1 \<le> nat (py_int (time / delta_t))"
    using assms(4,5) by (rule py_int_steps)
  from simulate_other[OF assms(10) rate refl N x0 assms(1,2), of a b xi b_prime]
  show ?thesis using x0 by (simp add: jdprocess_entry_pass[OF pass])
qed

theorem unknown_solver_zero_path_witness:
  "''euler'' \<noteq> ''Euler'' \<and> ''euler'' \<noteq> ''Milstein'' \<and> (0::real) < 3 \<and> (0::real) < 1
   \<and> (1::real) \<le> 3 \<and> callable (PyFunc drift_ex) \<and> callable (PyFunc diffusion_ex)
   \<and> int_or_float (PyFloat 1) \<and> int_or_float (PyFloat 2) \<and> value_of (PyFloat 2) = Inr 2
   \<and> (0::real) \<le> 2 \<and> (PyFloat 5 = PyNone \<or> int_or_float (PyFloat 5))
   \<and> (\<exists>fr. jdprocess example_gen [] 3 1 (PyFunc drift_ex) (PyFunc diffusion_ex) (PyFloat 1)
              (PyFloat 2) (PyFloat 5) ''euler'' PyNone = Inr ([5, 0, 0], fr))"
proof -
  have 1: "int_or_float (PyFloat 1)" "int_or_float (PyFloat 2)"
    "PyFloat 5 = PyNone \<or> int_or_float (PyFloat 5)"
    by (simp_all add: int_or_float_def)
  have 2: "value_of (PyFloat 2) = Inr 2" by simp
  from unknown_solver_zero_path[of "''euler''" 3 1 "PyFunc drift_ex" "PyFunc diffusion_ex"
      "PyFloat 1" "PyFloat 2" 2 "PyFloat 5" example_gen "[]" PyNone]
  show ?thesis using 1 2 by (auto simp: initial_is_def py_int_def numeral_3_eq_3)
qed

section \<open>Worked examples\<close>

text \<open>Three steps of size 1 with the example generator: with a given initial value,
  with a drawn one, and the Milstein loop on given increments and jump counts.\<close>

lemmas run_defs = jdprocess_def entry_asserts_def simulate_def set_initial_def int_or_float_def
  py_int_def np_random_poisson_def euler_branch_def milstein_branch_def euler_body_def
  milstein_body_def euler_update_def milstein_update_def jump_update_def normal_scalar_def
  at_exit_def corrective_def example_gen_def drift_ex_def diffusion_ex_def

lemma example_euler_run:
  "jdprocess example_gen [] 3 1 (PyFunc drift_ex) (PyFunc diffusion_ex) (PyFloat 1) (PyFloat 2)
     (PyFloat 0) ''Euler'' PyNone
   = Inr ([0, 2, 8],
          \<lparr>v_length = Some 3, v_X = Some [0, 2, 8], v_dw = Some [1, 2, 3],
             v_dJ = Some [1, 0, 1],
             drawn = [Normal 0 1, Normal 0 1, Normal 0 1, Poisson 2, Poisson 2, Poisson 2,
                      Normal 0 1]\<rparr>)"
  by (simp add: run_defs numeral_3_eq_3 upt_rec)

lemma example_none_run:
  "jdprocess example_gen [] 3 1 (PyFunc drift_ex) (PyFunc diffusion_ex) (PyFloat 1) (PyFloat 2)
     PyNone ''Euler'' PyNone
   = Inr ([1, 10, - 6],
          \<lparr>v_length = Some 3, v_X = Some [1, 10, - 6], v_dw = Some [2, 3, 4],
             v_dJ = Some [0, 1, 0],
             drawn = [Normal 0 1, Normal 0 1, Normal 0 1, Normal 0 1, Poisson 2, Poisson 2,
                      Poisson 2, Normal 0 1]\<rparr>)"
  by (simp add: run_defs numeral_3_eq_3 upt_rec)

lemma example_milstein_run:
  "milstein_branch example_gen (PyFunc drift_ex) (PyFunc drift_ex) (PyFunc drift_prime_ex) 1
     (PyFloat 1) 3 [1, 2, 3] [1, 0, 1] ([1, 0, 0], [])
   = Inr ([1, 1, 10], [Normal 0 1])"
  by (simp add: run_defs drift_prime_ex_def numeral_3_eq_3 upt_rec)

section \<open>The integration schemes and the order of the draws\<close>

lemma jump_requests_none: "n \<le> k \<Longrightarrow> jump_requests xv dJ k n = []"
  by (simp add: jump_requests_def jump_sites_def)

text \<open>
  C3: with \<^verbatim>\<open>solver = 'Euler'\<close> and the preconditions passed, the call returns whenever
  there is at least one step and the rate is not negative, and every returned path has
  length \<open>N\<close> and satisfies, at each index \<open>i\<close> from 1 to \<open>N - 1\<close>,
  \<open>path[i] = path[i-1] + a(path[i-1]) * delta_t + b(path[i-1]) * dw[i]\<close>, where \<open>dw\<close> is the
  block of Wiener increments generated before the loop, plus \<open>dJ[i]\<close> times one fresh
  \<open>Normal(0, sqrt xi)\<close> variate exactly when \<open>dJ[i] > 0\<close>; the loop requests one such variate
  per index with a positive jump count and none at the others.
\<close>

theorem euler_recurrence:
  assumes "0 < time" "0 < delta_t" "int_or_float xi" "int_or_float lamb"
    "value_of xi = Inr xv" "value_of lamb = Inr lv" "init = PyNone \<or> int_or_float init"
    "N = nat (py_int (time / delta_t))"
    "dw = wiener_increments g h init delta_t N"
    "dJ = jump_counts g h init delta_t (lv * delta_t) N"
    "H = sampled_history h init delta_t (lv * delta_t) N"
  shows "(delta_t \<le> time \<and> 0 \<le> lv \<longrightarrow>
           (\<exists>p fr. jdprocess g h time delta_t (PyFunc fa) (PyFunc fb) xi lamb init ''Euler'' b_prime
                      = Inr (p, fr)))
       \<and> (\<forall>p fr. jdprocess g h time delta_t (PyFunc fa) (PyFunc fb) xi lamb init ''Euler'' b_prime
                    = Inr (p, fr) \<longrightarrow>
             length p = N \<and> v_dw fr = Some dw \<and> v_dJ fr = Some dJ
             \<and> drawn fr = H @ jump_requests xv dJ 1 N
             \<and> (\<forall>i. 1 \<le> i \<and> i < N \<longrightarrow>
                   p ! i = p ! (i - 1) + fa (p ! (i - 1)) * delta_t + fb (p ! (i - 1)) * dw ! i
                           + (if 0 < dJ ! i
                              then real (dJ ! i)
                                   * normal_variate g (H @ jump_requests xv dJ 1 i) 0 (sqrt xv)
                              else 0)))"
proof -
  let ?call = "jdprocess g h time delta_t (PyFunc fa) (PyFunc fb) xi lamb init ''Euler'' b_prime"
  obtain x0 where x0: "initial_is g h delta_t init x0"
    using initial_is_ex[OF assms(7)] by blast
  have pass: "entry_asserts time delta_t (PyFunc fa) (PyFunc fb) xi lamb ''Euler'' b_prime = None"
    using assms(1-4) by (simp add: entry_asserts_None)
  have sim: "?call = simulate g h time delta_t (PyFunc fa) (PyFunc fb) xi lamb init ''Euler'' b_prime"
    by (rule jdprocess_entry_pass[OF pass])
  consider (empty) "N = 0" | (neg) "1 \<le> N" "lv * delta_t < 0" | (ok) "1 \<le> N" "0 \<le> lv * delta_t"
    by fastforce
  then show ?thesis
  proof cases
    case empty
    then have N0: "nat (py_int (time / delta_t)) = 0" using assms(8) by simp
    have "\<not> delta_t \<le> time"
      using py_int_steps[OF assms(2), of time] N0 by auto
    then show ?thesis
      by (simp add: sim simulate_empty[OF N0 x0])
  next
    case neg
    have "\<not> 0 \<le> lv" using neg(2) assms(2) by (auto simp: mult_less_0_iff)
    then show ?thesis
      by (simp add: sim simulate_negative_rate[OF assms(6) neg(2) assms(8) neg(1) x0])
  next
    case ok
    from simulate_euler[OF assms(5,6) ok(2) assms(8) ok(1) x0, of fa fb b_prime]
    show ?thesis
      unfolding sim assms(9,10,11) jump_term_def by auto
  qed
qed

theorem euler_recurrence_witness:
  "(0::real) < 3 \<and> (0::real) < 1 \<and> int_or_float (PyFloat 1) \<and> int_or_float (PyFloat 2)
   \<and> value_of (PyFloat 1) = Inr 1 \<and> value_of (PyFloat 2) = Inr 2
   \<and> 3 = nat (py_int (3 / 1)) \<and> (1::real) \<le> 3 \<and> (0::real) \<le> 2
   \<and> wiener_increments example_gen [] PyNone 1 3 = [2, 3, 4]
   \<and> jump_counts example_gen [] PyNone 1 (2 * 1) 3 = [0, 1, 0]
   \<and> (\<exists>p fr. jdprocess example_gen [] 3 1 (PyFunc drift_ex) (PyFunc diffusion_ex) (PyFloat 1)
                (PyFloat 2) PyNone ''Euler'' PyNone = Inr (p, fr)
          \<and> length p = 3
          \<and> p ! 1 = p ! 0 + drift_ex (p ! 0) * 1 + diffusion_ex (p ! 0) * 3 + 1 * 8
          \<and> p ! 2 = p ! 1 + drift_ex (p ! 1) * 1 + diffusion_ex (p ! 1) * 4)"
proof -
  have t: "int_or_float (PyFloat 1)" "int_or_float (PyFloat 2)"
    by (simp_all add: int_or_float_def)
  have N: "3 = nat (py_int (3 / 1))" by (simp add: py_int_def)
  have dw: "wiener_increments example_gen [] PyNone 1 3 = [2, 3, 4]"
    by (simp add: wiener_increments_def initial_requests_def example_gen_def numeral_3_eq_3)
  have dJ: "jump_counts example_gen [] PyNone 1 (2 * 1) 3 = [0, 1, 0]"
    by (simp add: jump_counts_def initial_requests_def example_gen_def numeral_3_eq_3)
  note T = euler_recurrence[of 3 1 "PyFloat 1" "PyFloat 2" 1 2 PyNone 3
      "[2, 3, 4]" example_gen "[]" "[0, 1, 0]"
      "sampled_history [] PyNone 1 (2 * 1) 3" drift_ex diffusion_ex PyNone,
      OF _ _ t _ _ _ N dw[symmetric] dJ[symmetric] refl]
  have T': "(\<exists>p fr. jdprocess example_gen [] 3 1 (PyFunc drift_ex) (PyFunc diffusion_ex)
                 (PyFloat 1) (PyFloat 2) PyNone ''Euler'' PyNone = Inr (p, fr))"
    and T'': "\<And>p fr. jdprocess example_gen [] 3 1 (PyFunc drift_ex) (PyFunc diffusion_ex)
                 (PyFloat 1) (PyFloat 2) PyNone ''Euler'' PyNone = Inr (p, fr) \<Longrightarrow>
             length p = 3
             \<and> (\<forall>i. 1 \<le> i \<and> i < 3 \<longrightarrow>
                   p ! i = p ! (i - 1) + drift_ex (p ! (i - 1)) * 1
                           + diffusion_ex (p ! (i - 1)) * [2, 3, 4] ! i
                           + (if 0 < [0, 1, 0::nat] ! i
                              then real ([0, 1, 0] ! i)
                                   * normal_variate example_gen
                                       (sampled_history [] PyNone 1 (2 * 1) 3
                                          @ jump_requests 1 [0, 1, 0] 1 i) 0 (sqrt 1)
                              else 0))"
    using T by simp_all
  from T' obtain p fr where run: "jdprocess example_gen [] 3 1 (PyFunc drift_ex)
      (PyFunc diffusion_ex) (PyFloat 1) (PyFloat 2) PyNone ''Euler'' PyNone = Inr (p, fr)"
    by blast
  from T''[OF run] have len: "length p = 3"
    and rec: "\<And>i. 1 \<le> i \<and> i < 3 \<Longrightarrow>
                   p ! i = p ! (i - 1) + drift_ex (p ! (i - 1)) * 1
                           + diffusion_ex (p ! (i - 1)) * [2, 3, 4] ! i
                           + (if 0 < [0, 1, 0::nat] ! i
                              then real ([0, 1, 0] ! i)
                                   * normal_variate example_gen
                                       (sampled_history [] PyNone 1 (2 * 1) 3
                                          @ jump_requests 1 [0, 1, 0] 1 i) 0 (sqrt 1)
                              else 0)"
    by blast+
  have p1: "p ! 1 = p ! 0 + drift_ex (p ! 0) * 1 + diffusion_ex (p ! 0) * 3 + 1 * 8"
    using rec[of 1]
    by (simp add: jump_requests_def jump_sites_def sampled_history_def initial_requests_def
        example_gen_def)
  have p2: "p ! 2 = p ! 1 + drift_ex (p ! 1) * 1 + diffusion_ex (p ! 1) * 4"
    using rec[of 2] by (simp add: numeral_2_eq_2)
  show ?thesis using t dw dJ run len p1 p2 by (auto simp: py_int_def)
qed

text \<open>
  C5: when the Milstein branch runs (on a path array, Wiener increments and jump counts of
  length \<open>N\<close>, with callable \<^verbatim>\<open>a\<close>, \<^verbatim>\<open>b\<close>, \<^verbatim>\<open>b_prime\<close>), the corrective terms
  \<open>(dw[i]\<^sup>2 - delta_t) / 2\<close> are computed for all indices before the loop, and at each index
  \<open>i\<close> from 1 to \<open>N - 1\<close> the path satisfies
  \<open>path[i] = path[i-1] + a(path[i-1]) * delta_t + b(path[i-1]) * dw[i]
    + b(path[i-1]) * b_prime(path[i-1]) * (dw[i]\<^sup>2 - delta_t) / 2\<close>,
  plus \<open>dJ[i]\<close> times one fresh \<open>Normal(0, sqrt xi)\<close> variate when \<open>dJ[i] > 0\<close>.
\<close>

theorem milstein_recurrence:
  assumes "length X = N" "length dw = N" "length dJ = N" "value_of xi = Inr xv"
  shows "\<exists>p. milstein_branch g (PyFunc fa) (PyFunc fb) (PyFunc fbp) delta_t xi N dw dJ (X, h)
               = Inr (p, h @ jump_requests xv dJ 1 N)
          \<and> length p = N \<and> p ! 0 = X ! 0
          \<and> length (corrective dw delta_t) = N
          \<and> (\<forall>i. 1 \<le> i \<and> i < N \<longrightarrow>
                corrective dw delta_t ! i = ((dw ! i)\<^sup>2 - delta_t) / 2
                \<and> p ! i = p ! (i - 1) + fa (p ! (i - 1)) * delta_t + fb (p ! (i - 1)) * dw ! i
                          + fb (p ! (i - 1)) * fbp (p ! (i - 1)) * (((dw ! i)\<^sup>2 - delta_t) / 2)
                          + (if 0 < dJ ! i
                             then real (dJ ! i)
                                  * normal_variate g (h @ jump_requests xv dJ 1 i) 0 (sqrt xv)
                             else 0))"
proof (cases "N = 0")
  case True
  then show ?thesis
    using assms by (simp add: milstein_branch_def jump_requests_none corrective_def)
next
  case False
  then have N: "1 \<le> N" by simp
  have c: "corrective dw delta_t ! i = ((dw ! i)\<^sup>2 - delta_t) / 2" if "i < N" for i
    using that assms(2) by (simp add: corrective_def)
  from milstein_branch_run[OF assms(4,2,3,1) N, of g fa fb fbp delta_t h]
  obtain p where p: "milstein_branch g (PyFunc fa) (PyFunc fb) (PyFunc fbp) delta_t xi N dw dJ (X, h)
               = Inr (p, h @ jump_requests xv dJ 1 N)" "length p = N" "p ! 0 = X ! 0"
    and rec: "\<forall>i. 1 \<le> i \<and> i < N \<longrightarrow>
                p ! i = p ! (i - 1) + fa (p ! (i - 1)) * delta_t + fb (p ! (i - 1)) * dw ! i
                        + fb (p ! (i - 1)) * fbp (p ! (i - 1)) * corrective dw delta_t ! i
                        + jump_term g xv dJ (h @ jump_requests xv dJ 1 i) i"
    by blast
  have "length (corrective dw delta_t) = N" using assms(2) by (simp add: corrective_def)
  then show ?thesis
    using p rec c unfolding jump_term_def by auto
qed

theorem milstein_recurrence_witness:
  "length [1, 0, 0::real] = 3 \<and> length [1, 2, 3::real] = 3 \<and> length [1, 0, 1::nat] = 3
   \<and> value_of (PyFloat 1) = Inr 1
   \<and> (\<exists>p. milstein_branch example_gen (PyFunc drift_ex) (PyFunc drift_ex)
              (PyFunc drift_prime_ex) 1 (PyFloat 1) 3 [1, 2, 3] [1, 0, 1] ([1, 0, 0], [])
            = Inr (p, [Normal 0 1])
        \<and> length p = 3 \<and> p ! 0 = 1
        \<and> p ! 1 = p ! 0 + drift_ex (p ! 0) * 1 + drift_ex (p ! 0) * 2
                  + drift_ex (p ! 0) * drift_prime_ex (p ! 0) * (3 / 2)
        \<and> p ! 2 = p ! 1 + drift_ex (p ! 1) * 1 + drift_ex (p ! 1) * 3
                  + drift_ex (p ! 1) * drift_prime_ex (p ! 1) * 4 + 1 * 1)"
proof -
  have l: "length [1, 0, 0::real] = 3" "length [1, 2, 3::real] = 3" "length [1, 0, 1::nat] = 3"
    by simp_all
  have v: "value_of (PyFloat 1) = Inr 1" by simp
  from milstein_recurrence[OF l v, of example_gen drift_ex drift_ex drift_prime_ex 1 "[]"]
  obtain p where run: "milstein_branch example_gen (PyFunc drift_ex) (PyFunc drift_ex)
              (PyFunc drift_prime_ex) 1 (PyFloat 1) 3 [1, 2, 3] [1, 0, 1] ([1, 0, 0], [])
            = Inr (p, [] @ jump_requests 1 [1, 0, 1] 1 3)"
    and len: "length p = 3" and p0: "p ! 0 = [1, 0, 0] ! 0"
    and rec: "\<And>i. 1 \<le> i \<and> i < 3 \<Longrightarrow>
                p ! i = p ! (i - 1) + drift_ex (p ! (i - 1)) * 1
                          + drift_ex (p ! (i - 1)) * [1, 2, 3] ! i
                          + drift_ex (p ! (i - 1)) * drift_prime_ex (p ! (i - 1))
                              * ((([1, 2, 3] ! i)\<^sup>2 - 1) / 2)
                          + (if 0 < [1, 0, 1::nat] ! i
                             then real ([1, 0, 1] ! i)
                                  * normal_variate example_gen
                                      ([] @ jump_requests 1 [1, 0, 1] 1 i) 0 (sqrt 1)
                             else 0)"
    by blast
  have h: "[] @ jump_requests 1 [1, 0, 1] 1 3 = [Normal 0 1]"
    by (simp add: jump_requests_def jump_sites_def upt_rec numeral_3_eq_3)
  have p1: "p ! 1 = p ! 0 + drift_ex (p ! 0) * 1 + drift_ex (p ! 0) * 2
                  + drift_ex (p ! 0) * drift_prime_ex (p ! 0) * (3 / 2)"
    using rec[of 1] by simp
  have p2: "p ! 2 = p ! 1 + drift_ex (p ! 1) * 1 + drift_ex (p ! 1) * 3
                  + drift_ex (p ! 1) * drift_prime_ex (p ! 1) * 4 + 1 * 1"
    using rec[of 2]
    by (simp add: numeral_2_eq_2 jump_requests_def jump_sites_def example_gen_def)
  show ?thesis using run len p0 p1 p2 unfolding h by auto
qed

lemma jump_requests_split:
  assumes "k \<le> i" "i \<le> n"
  shows "jump_requests xv dJ k n = jump_requests xv dJ k i @ jump_requests xv dJ i n"
proof -
  obtain d where n: "n = i + d" using assms(2) le_Suc_ex by blast
  have "[k..<i + d] = [k..<i] @ [i..<i + d]"
    using assms(1) by (rule upt_add_eq_append)
  then show ?thesis
    by (simp add: jump_requests_def jump_sites_def n)
qed

lemma jump_requests_prefix:
  assumes "k \<le> i" "i < n"
  shows "prefix (H @ jump_requests xv dJ k i) (H @ jump_requests xv dJ k n)"
    and "0 < dJ ! i \<Longrightarrow>
          prefix ((H @ jump_requests xv dJ k i) @ [Normal 0 (sqrt xv)])
                 (H @ jump_requests xv dJ k n)"
proof -
  have s: "jump_requests xv dJ k n = jump_requests xv dJ k i @ jump_requests xv dJ i n"
    using assms by (intro jump_requests_split) simp_all
  show "prefix (H @ jump_requests xv dJ k i) (H @ jump_requests xv dJ k n)"
    by (simp add: s)
  show "prefix ((H @ jump_requests xv dJ k i) @ [Normal 0 (sqrt xv)])
                 (H @ jump_requests xv dJ k n)" if "0 < dJ ! i"
    using that assms(2) by (simp add: s jump_requests_first[of i n])
qed

text \<open>
  C6: a call that reaches the sampling phase consumes the generator in a fixed order:
  one \<open>Normal(0, sqrt delta_t)\<close> variate for \<^verbatim>\<open>X[0]\<close> only when \<^verbatim>\<open>init\<close> is absent, then the
  \<open>N\<close> Wiener increments as one block, then the \<open>N\<close> Poisson jump counts as one block, and
  then, in the Euler loop, one \<open>Normal(0, sqrt xi)\<close> variate per index \<open>i\<close> in increasing
  order at the indices with \<open>dJ[i] > 0\<close>: the variate that enters \<open>path[i]\<close> is the one served
  when the history holds the two blocks and the requests of the jump indices below \<open>i\<close>,
  its request follows them in the log, and an index with \<open>dJ[i] = 0\<close> adds no request. No
  loop runs for another solver string. A call that stops early (no step at all, or a
  negative rate) has consumed a prefix of that sequence.
\<close>

theorem draw_order:
  assumes "0 < time" "0 < delta_t" "solver \<noteq> ''Milstein''"
    "int_or_float xi" "int_or_float lamb" "value_of xi = Inr xv" "value_of lamb = Inr lv"
    "init = PyNone \<or> int_or_float init"
    "N = nat (py_int (time / delta_t))"
    "r0 = (if init = PyNone then [Normal 0 (sqrt delta_t)] else [])"
    "rW = replicate N (Normal 0 (sqrt delta_t))"
    "rJ = replicate N (Poisson (lv * delta_t))"
    "dw = fst (normal_array g 0 (sqrt delta_t) N (h @ r0))"
    "dJ = fst (poisson_array g (lv * delta_t) N (h @ r0 @ rW))"
  shows "(1 \<le> N \<and> 0 \<le> lv * delta_t \<longrightarrow>
           (\<exists>p fr. jdprocess g h time delta_t (PyFunc fa) (PyFunc fb) xi lamb init solver b_prime
                     = Inr (p, fr)
              \<and> length p = N \<and> initial_is g h delta_t init (p ! 0)
              \<and> v_dw fr = Some dw \<and> v_dJ fr = Some dJ
              \<and> drawn fr = h @ r0 @ rW @ rJ
                   @ (if solver = ''Euler''
                      then map (\<lambda>i. Normal 0 (sqrt xv)) (filter (\<lambda>i. 0 < dJ ! i) [1..<N])
                      else [])
              \<and> (solver = ''Euler'' \<longrightarrow>
                   (\<forall>i. 1 \<le> i \<and> i < N \<longrightarrow>
                      prefix (h @ r0 @ rW @ rJ
                                @ map (\<lambda>j. Normal 0 (sqrt xv))
                                    (filter (\<lambda>j. 0 < dJ ! j) [1..<i]))
                             (drawn fr)
                      \<and> (if 0 < dJ ! i
                          then prefix (h @ r0 @ rW @ rJ
                                         @ map (\<lambda>j. Normal 0 (sqrt xv))
                                             (filter (\<lambda>j. 0 < dJ ! j) [1..<i])
                                         @ [Normal 0 (sqrt xv)])
                                      (drawn fr)
                             \<and> p ! i = p ! (i - 1) + fa (p ! (i - 1)) * delta_t
                                         + fb (p ! (i - 1)) * dw ! i
                                         + real (dJ ! i)
                                           * normal_variate g
                                               (h @ r0 @ rW @ rJ
                                                  @ map (\<lambda>j. Normal 0 (sqrt xv))
                                                      (filter (\<lambda>j. 0 < dJ ! j) [1..<i]))
                                               0 (sqrt xv)
                          else p ! i = p ! (i - 1) + fa (p ! (i - 1)) * delta_t
                                         + fb (p ! (i - 1)) * dw ! i)))
              \<and> (solver \<noteq> ''Euler'' \<longrightarrow> p = p ! 0 # replicate (N - 1) 0)))
       \<and> (N = 0 \<longrightarrow>
           (\<exists>fr. jdprocess g h time delta_t (PyFunc fa) (PyFunc fb) xi lamb init solver b_prime
                   = Inl (IndexError, fr)
              \<and> drawn fr = h @ r0))
       \<and> (1 \<le> N \<and> lv * delta_t < 0 \<longrightarrow>
           (\<exists>fr. jdprocess g h time delta_t (PyFunc fa) (PyFunc fb) xi lamb init solver b_prime
                   = Inl (ValueError, fr)
              \<and> drawn fr = h @ r0 @ rW))"
proof -
  let ?call = "jdprocess g h time delta_t (PyFunc fa) (PyFunc fb) xi lamb init solver b_prime"
  let ?H = "h @ r0 @ rW @ rJ"
  obtain x0 where x0: "initial_is g h delta_t init x0"
    using initial_is_ex[OF assms(8)] by blast
  have pass: "entry_asserts time delta_t (PyFunc fa) (PyFunc fb) xi lamb solver b_prime = None"
    using assms(1-5) by (simp add: entry_asserts_None)
  note sim = jdprocess_entry_pass[OF pass]
  have r0: "r0 = initial_requests init delta_t"
    by (simp add: assms(10) initial_requests_def)
  have dw: "dw = wiener_increments g h init delta_t N"
    by (simp add: assms(13) wiener_increments_def r0)
  have dJ: "dJ = jump_counts g h init delta_t (lv * delta_t) N"
    by (simp add: assms(14) jump_counts_def r0 assms(11))
  have H: "sampled_history h init delta_t (lv * delta_t) N = ?H"
    by (simp add: sampled_history_def r0 assms(11,12))
  have jr: "map (\<lambda>j. Normal 0 (sqrt xv)) (filter (\<lambda>j. 0 < dJ ! j) [1..<i])
              = jump_requests xv dJ 1 i" for i
    by (simp add: jump_requests_def jump_sites_def)
  have app: "h @ r0 @ rW @ rJ @ ys = ?H @ ys" for ys
    by simp
  have app2: "h @ r0 @ rW @ rJ @ ys @ zs = (?H @ ys) @ zs" for ys zs
    by simp
  have 1: "\<exists>p fr. ?call = Inr (p, fr)
              \<and> length p = N \<and> initial_is g h delta_t init (p ! 0)
              \<and> v_dw fr = Some dw \<and> v_dJ fr = Some dJ
              \<and> drawn fr = ?H @ (if solver = ''Euler'' then jump_requests xv dJ 1 N else [])
              \<and> (solver = ''Euler'' \<longrightarrow>
                   (\<forall>i. 1 \<le> i \<and> i < N \<longrightarrow>
                      prefix (?H @ jump_requests xv dJ 1 i) (drawn fr)
                      \<and> (if 0 < dJ ! i
                          then prefix ((?H @ jump_requests xv dJ 1 i) @ [Normal 0 (sqrt xv)])
                                      (drawn fr)
                             \<and> p ! i = p ! (i - 1) + fa (p ! (i - 1)) * delta_t
                                         + fb (p ! (i - 1)) * dw ! i
                                         + real (dJ ! i)
                                           * normal_variate g (?H @ jump_requests xv dJ 1 i)
                                               0 (sqrt xv)
                          else p ! i = p ! (i - 1) + fa (p ! (i - 1)) * delta_t
                                         + fb (p ! (i - 1)) * dw ! i)))
              \<and> (solver \<noteq> ''Euler'' \<longrightarrow> p = p ! 0 # replicate (N - 1) 0)"
    if ok: "1 \<le> N" "0 \<le> lv * delta_t"
  proof (cases "solver = ''Euler''")
    case True
    from simulate_euler[OF assms(6,7) ok(2) assms(9) ok(1) x0, of fa fb b_prime]
    obtain p where run:
      "simulate g h time delta_t (PyFunc fa) (PyFunc fb) xi lamb init ''Euler'' b_prime =
         Inr (p, \<lparr>v_length = Some N, v_X = Some p, v_dw = Some dw, v_dJ = Some dJ,
                  drawn = ?H @ jump_requests xv dJ 1 N\<rparr>)"
      and len: "length p = N" and p0: "p ! 0 = x0"
      and rec: "\<And>i. 1 \<le> i \<and> i < N \<Longrightarrow>
               p ! i = p ! (i - 1) + fa (p ! (i - 1)) * delta_t + fb (p ! (i - 1)) * dw ! i
                       + jump_term g xv dJ (?H @ jump_requests xv dJ 1 i) i"
      unfolding dw[symmetric] dJ[symmetric] H by blast
    obtain fr where call: "?call = Inr (p, fr)"
      and fr: "v_dw fr = Some dw" "v_dJ fr = Some dJ"
      and log: "drawn fr = ?H @ jump_requests xv dJ 1 N"
      using run unfolding True by (simp add: sim[unfolded True])
    have step: "\<forall>i. 1 \<le> i \<and> i < N \<longrightarrow>
                prefix (?H @ jump_requests xv dJ 1 i) (drawn fr)
                \<and> (if 0 < dJ ! i
                    then prefix ((?H @ jump_requests xv dJ 1 i) @ [Normal 0 (sqrt xv)])
                                (drawn fr)
                       \<and> p ! i = p ! (i - 1) + fa (p ! (i - 1)) * delta_t
                                   + fb (p ! (i - 1)) * dw ! i
                                   + real (dJ ! i)
                                     * normal_variate g (?H @ jump_requests xv dJ 1 i)
                                         0 (sqrt xv)
                    else p ! i = p ! (i - 1) + fa (p ! (i - 1)) * delta_t
                                   + fb (p ! (i - 1)) * dw ! i)"
    proof (intro allI impI)
      fix i assume i: "1 \<le> i \<and> i < N"
      then have i1: "1 \<le> i" and iN: "i < N" by simp_all
      have a: "prefix (?H @ jump_requests xv dJ 1 i) (drawn fr)"
        unfolding log by (rule jump_requests_prefix(1)[OF i1 iN])
      have b: "prefix ((?H @ jump_requests xv dJ 1 i) @ [Normal 0 (sqrt xv)]) (drawn fr)"
        if "0 < dJ ! i"
        unfolding log by (rule jump_requests_prefix(2)[OF i1 iN that])
      show "prefix (?H @ jump_requests xv dJ 1 i) (drawn fr)
                \<and> (if 0 < dJ ! i
                    then prefix ((?H @ jump_requests xv dJ 1 i) @ [Normal 0 (sqrt xv)])
                                (drawn fr)
                       \<and> p ! i = p ! (i - 1) + fa (p ! (i - 1)) * delta_t
                                   + fb (p ! (i - 1)) * dw ! i
                                   + real (dJ ! i)
                                     * normal_variate g (?H @ jump_requests xv dJ 1 i)
                                         0 (sqrt xv)
                    else p ! i = p ! (i - 1) + fa (p ! (i - 1)) * delta_t
                                   + fb (p ! (i - 1)) * dw ! i)"
        using a b rec[OF i] by (simp add: jump_term_def)
    qed
    have init: "initial_is g h delta_t init (p ! 0)" using x0 p0 by simp
    have logE: "drawn fr = ?H @ (if solver = ''Euler'' then jump_requests xv dJ 1 N else [])"
      using log True by simp
    show ?thesis
      using call len init fr logE step True by blast
  next
    case False
    let ?p = "x0 # replicate (N - 1) 0"
    let ?fr = "\<lparr>v_length = Some N, v_X = Some ?p, v_dw = Some dw, v_dJ = Some dJ,
                  drawn = ?H\<rparr>"
    from simulate_other[OF assms(7) ok(2) assms(9) ok(1) x0 False assms(3),
        of "PyFunc fa" "PyFunc fb" xi b_prime]
    have call: "?call = Inr (?p, ?fr)"
      unfolding dw[symmetric] dJ[symmetric] H by (simp add: sim)
    have len: "length ?p = N" using ok(1) by simp
    have p0: "initial_is g h delta_t init (?p ! 0)" "?p = ?p ! 0 # replicate (N - 1) 0"
      using x0 by simp_all
    have fr: "v_dw ?fr = Some dw" "v_dJ ?fr = Some dJ"
      "drawn ?fr = ?H @ (if solver = ''Euler'' then jump_requests xv dJ 1 N else [])"
      using False by simp_all
    show ?thesis
      using call len p0 fr False by blast
  qed
  have 2: "\<exists>fr. ?call = Inl (IndexError, fr) \<and> drawn fr = h @ r0"
    if "N = 0"
  proof -
    have N0: "nat (py_int (time / delta_t)) = 0" using that assms(9) by simp
    show ?thesis by (simp add: sim simulate_empty[OF N0 x0] r0)
  qed
  have 3: "\<exists>fr. ?call = Inl (ValueError, fr) \<and> drawn fr = h @ r0 @ rW"
    if neg: "1 \<le> N" "lv * delta_t < 0"
    by (simp add: sim simulate_negative_rate[OF assms(7) neg(2) assms(9) neg(1) x0] r0
        assms(11))
  show ?thesis
    unfolding jr app2 using 1 2 3 unfolding app by blast
qed


theorem draw_order_witness:
  "(0::real) < 4 \<and> (0::real) < 1 \<and> ''Euler'' \<noteq> ''Milstein''
   \<and> int_or_float (PyFloat 1) \<and> int_or_float (PyFloat 2)
   \<and> value_of (PyFloat 1) = Inr 1 \<and> value_of (PyFloat 2) = Inr 2
   \<and> (PyFloat 0 = PyNone \<or> int_or_float (PyFloat 0))
   \<and> 4 = nat (py_int (4 / 1)) \<and> (1::nat) \<le> 4 \<and> (0::real) \<le> 2 * 1
   \<and> (\<exists>fr. jdprocess example_gen [] 4 1 (PyFunc drift_ex) (PyFunc diffusion_ex) (PyFloat 1)
        (PyFloat 2) (PyFloat 0) ''Euler'' PyNone = Inr ([0, 11, - 8, 22], fr)
          \<and> v_dw fr = Some [1, 2, 3, 4] \<and> v_dJ fr = Some [0, 1, 0, 1]
          \<and> drawn fr = [Normal 0 1, Normal 0 1, Normal 0 1, Normal 0 1,
                         Poisson 2, Poisson 2, Poisson 2, Poisson 2,
                         Normal 0 1, Normal 0 1])"
proof -
  have t: "int_or_float (PyFloat 1)" "int_or_float (PyFloat 2)"
    and i0: "PyFloat 0 = PyNone \<or> int_or_float (PyFloat 0)"
    by (simp_all add: int_or_float_def)
  have v: "value_of (PyFloat 1) = Inr 1" "value_of (PyFloat 2) = Inr 2" by simp_all
  have pos: "(0::real) < 4" "(0::real) < 1" and sol: "''Euler'' \<noteq> ''Milstein''" by simp_all
  have N: "4 = nat (py_int (4 / 1))" by (simp add: py_int_def)
  have four: "(4::nat) = Suc (Suc (Suc (Suc 0)))" by simp
  have r0: "[] = (if PyFloat 0 = PyNone then [Normal 0 (sqrt 1)] else [])" by simp
  have dw: "[1, 2, 3, 4] = fst (normal_array example_gen 0 (sqrt 1) 4 ([] @ []))"
    by (simp add: example_gen_def four)
  have dJ: "[0, 1, 0, 1] = fst (poisson_array example_gen (2 * 1) 4
                                  ([] @ [] @ replicate 4 (Normal 0 (sqrt 1))))"
    by (simp add: example_gen_def four)
  have ok: "(1::nat) \<le> 4 \<and> (0::real) \<le> 2 * 1" by simp
  note T = draw_order[OF pos sol t v i0 N r0 refl refl dw dJ,
      of drift_ex diffusion_ex PyNone, THEN conjunct1, THEN mp, OF ok]
  from T obtain p fr where call: "jdprocess example_gen [] 4 1 (PyFunc drift_ex) (PyFunc diffusion_ex) (PyFloat 1)
        (PyFloat 2) (PyFloat 0) ''Euler'' PyNone = Inr (p, fr)"
    and len: "length p = 4"
    and init: "initial_is example_gen [] 1 (PyFloat 0) (p ! 0)"
    and fr: "v_dw fr = Some [1, 2, 3, 4]" "v_dJ fr = Some [0, 1, 0, 1]"
    and log: "drawn fr = [] @ [] @ replicate 4 (Normal 0 (sqrt 1)) @ replicate 4 (Poisson (2 * 1)) @ (if ''Euler'' = ''Euler''
                      then map (\<lambda>i. Normal 0 (sqrt 1)) (filter (\<lambda>i. 0 < [0, 1, 0, 1::nat] ! i) [1..<4])
                      else [])"
    and step: "\<forall>i. 1 \<le> i \<and> i < 4 \<longrightarrow>
          prefix ([] @ [] @ replicate 4 (Normal 0 (sqrt 1)) @ replicate 4 (Poisson (2 * 1)) @ map (\<lambda>j. Normal 0 (sqrt 1)) (filter (\<lambda>j. 0 < [0, 1, 0, 1::nat] ! j) [1..<i])) (drawn fr)
          \<and> (if 0 < [0, 1, 0, 1::nat] ! i
              then prefix ([] @ [] @ replicate 4 (Normal 0 (sqrt 1)) @ replicate 4 (Poisson (2 * 1)) @ map (\<lambda>j. Normal 0 (sqrt 1)) (filter (\<lambda>j. 0 < [0, 1, 0, 1::nat] ! j) [1..<i]) @ [Normal 0 (sqrt 1)]) (drawn fr)
                 \<and> p ! i = p ! (i - 1) + drift_ex (p ! (i - 1)) * 1
                             + diffusion_ex (p ! (i - 1)) * [1, 2, 3, 4] ! i
                             + real ([0, 1, 0, 1] ! i)
                               * normal_variate example_gen ([] @ [] @ replicate 4 (Normal 0 (sqrt 1)) @ replicate 4 (Poisson (2 * 1)) @ map (\<lambda>j. Normal 0 (sqrt 1)) (filter (\<lambda>j. 0 < [0, 1, 0, 1::nat] ! j) [1..<i])) 0 (sqrt 1)
              else p ! i = p ! (i - 1) + drift_ex (p ! (i - 1)) * 1
                             + diffusion_ex (p ! (i - 1)) * [1, 2, 3, 4] ! i)"
    by blast
  have p0: "p ! 0 = 0" using init by (simp add: initial_is_def)
  have p1: "p ! 1 = 11"
    using step[rule_format, of 1] p0 by (simp add: example_gen_def drift_ex_def diffusion_ex_def)
  have p2: "p ! 2 = - 8"
    using step[rule_format, of 2] p1
    by (simp add: example_gen_def drift_ex_def diffusion_ex_def four)
  have p3: "p ! 3 = 22"
    using step[rule_format, of 3] p2
    by (simp add: example_gen_def drift_ex_def diffusion_ex_def four upt_rec)
  have "p = [p ! 0, p ! 1, p ! 2, p ! 3]"
    using len by (auto simp: four length_Suc_conv)
  then have p: "p = [0, 11, - 8, 22]" using p0 p1 p2 p3 by simp
  have log': "drawn fr = [Normal 0 1, Normal 0 1, Normal 0 1, Normal 0 1,
                         Poisson 2, Poisson 2, Poisson 2, Poisson 2,
                         Normal 0 1, Normal 0 1]"
    using log by (simp add: four upt_rec)
  show ?thesis
    using call fr log' t i0 unfolding p by (simp add: py_int_def)
qed

end
